theory Spec2Isabelle
  imports Main "HOL-Library.Word" "HOL-Library.Signed_Division"
begin

section \<open>The Vault key store of \<^verbatim>\<open>internal/vault/vault.go\<close>\<close>

text \<open>
  The package keeps secret keys as entries of Hashicorp Vault's K/V backend. It talks to
  Vault through the client library \<^verbatim>\<open>vaultapi\<close>, which is not part of the repository.
  The embedding therefore takes the library (and the server behind it) as a parameter: a
  record of functions over an arbitrary world state \<open>'w\<close>. Every call the store makes
  through the library is appended to a trace, so that "no backend I/O" is a statement
  about that trace.
\<close>

subsection \<open>Durations\<close>

text \<open>
  \<^verbatim>\<open>time.Duration\<close> is an \<^verbatim>\<open>int64\<close> count of nanoseconds. Go's \<^verbatim>\<open>/\<close> on integers
  truncates towards zero.
\<close>

type_synonym Duration = "64 word"

definition Second :: Duration where
  "Second = 1000000000"

definition half :: "Duration \<Rightarrow> Duration" where
  "half d = word_of_int (sint d sdiv 2)"

subsection \<open>Errors and log lines\<close>

text \<open>
  The error values the file creates or names, one constructor each; \<open>Foreign\<close> is any
  other error value, as the client library or the operating system returns it, with
  its message.
  \<^item> \<open>errNoConnection\<close>: \<^verbatim>\<open>errors.New("vault: no connection to vault server")\<close>
  \<^item> \<open>errSealed\<close>: \<^verbatim>\<open>kes.NewError(http.StatusForbidden, "key store is sealed")\<close>
  \<^item> \<open>ErrKeyNotFound\<close>, \<open>ErrKeyExists\<close>: \<^verbatim>\<open>kes.ErrKeyNotFound\<close>, \<^verbatim>\<open>kes.ErrKeyExists\<close>
  \<^item> \<open>errNoValue\<close>: \<^verbatim>\<open>errors.New("vault: K/V entry does not contain any value")\<close>
  \<^item> \<open>errInvalidFormat\<close>: \<^verbatim>\<open>errors.New("vault: invalid K/V entry format")\<close>
  \<^item> \<open>errFailedToOpen p e\<close>: \<^verbatim>\<open>fmt.Errorf("Failed to open '%s': %v", p, e)\<close>
\<close>

datatype error =
    errNoConnection
  | errSealed
  | ErrKeyNotFound
  | ErrKeyExists
  | errNoValue
  | errInvalidFormat
  | errFailedToOpen string error
  | Foreign string

text \<open>
  A log line is kept as the call that produced it: \<^verbatim>\<open>Println(err)\<close> or
  \<^verbatim>\<open>Printf(format, args...)\<close> with its arguments, together with the logger it went to
  (\<open>None\<close> is the standard logger of package \<^verbatim>\<open>log\<close>, used when \<^verbatim>\<open>ErrorLog\<close> is nil).
\<close>

datatype arg = AStr string | AErr "error option"

datatype line = Println error | Printf string "arg list"

type_synonym Logger = string

subsection \<open>What the client library exchanges\<close>

text \<open>Values of type \<^verbatim>\<open>interface{}\<close> found in a secret's data.\<close>

datatype jvalue = JNil | JString string | JNumber int | JBool bool

text \<open>
  A \<^verbatim>\<open>*vaultapi.Secret\<close>. \<open>Data\<close> is the map \<^verbatim>\<open>secret.Data\<close> (a nil map has no
  keys). The other three fields hold what the library's methods \<^verbatim>\<open>TokenID()\<close>,
  \<^verbatim>\<open>TokenTTL()\<close> and \<^verbatim>\<open>TokenIsRenewable()\<close> return on this secret: a value and an
  error, as Go returns them.
\<close>

record secret =
  Data :: "string \<rightharpoonup> jvalue"
  TokenID :: "string \<times> error option"
  TokenTTL :: "Duration \<times> error option"
  TokenIsRenewable :: "bool \<times> error option"

record TLSConfig =
  ClientKey :: string
  ClientCert :: string
  tlsCAPath :: string
  tlsCACert :: string

record Config =
  Address :: string
  TLS :: TLSConfig

text \<open>A \<^verbatim>\<open>*vaultapi.Client\<close>: its configuration, namespace header and current token.\<close>

record Client =
  config :: Config
  namespace :: string
  token :: string

text \<open>The requests the store sends, as the trace records them.\<close>

datatype request =
    ReqHealth
  | ReqRead string
  | ReqWrite string "string \<rightharpoonup> jvalue"
  | ReqDelete string
  | ReqRenewSelf Duration

datatype actor = Caller | Monitor | Renewer

type_synonym reply = "secret option \<times> error option"

text \<open>
  The library and everything behind it. Each function takes the client (and so the token
  it sends) and the world, and returns Go's pair of a result and an error with the new
  world. \<open>sys_health\<close> is \<^verbatim>\<open>client.Sys().Health()\<close>, which returns a response whenever
  its error is nil; only the response's \<^verbatim>\<open>Sealed\<close> field is read. \<open>renew_self c ttl\<close> is
  \<^verbatim>\<open>client.Auth().Token().RenewSelf(int(ttl.Seconds()))\<close>: the conversion of the
  duration to whole seconds goes through a float and is left inside the parameter.
  \<open>os_stat\<close> is \<^verbatim>\<open>os.Stat\<close> followed by \<^verbatim>\<open>IsDir()\<close>, \<open>new_client\<close> is
  \<^verbatim>\<open>vaultapi.NewClient\<close> on the configured \<^verbatim>\<open>DefaultConfig()\<close>.
\<close>

record 'w vault =
  os_stat :: "string \<Rightarrow> 'w \<Rightarrow> error + bool"
  new_client :: "Config \<Rightarrow> 'w \<Rightarrow> error + Client"
  sys_health :: "Client \<Rightarrow> 'w \<Rightarrow> (error + bool) \<times> 'w"
  logical_read :: "Client \<Rightarrow> string \<Rightarrow> 'w \<Rightarrow> reply \<times> 'w"
  logical_write :: "Client \<Rightarrow> string \<Rightarrow> (string \<rightharpoonup> jvalue) \<Rightarrow> 'w \<Rightarrow> reply \<times> 'w"
  logical_delete :: "Client \<Rightarrow> string \<Rightarrow> 'w \<Rightarrow> reply \<times> 'w"
  renew_self :: "Client \<Rightarrow> Duration \<Rightarrow> 'w \<Rightarrow> reply \<times> 'w"

subsection \<open>The store\<close>

record AppRole =
  ID :: string
  Secret :: string
  Retry :: Duration

record Store =
  Addr :: string
  Location :: string
  AppRole :: AppRole
  StatusPingAfter :: Duration
  ErrorLog :: "Logger option"
  ClientKeyPath :: string
  ClientCertPath :: string
  CAPath :: string
  Namespace :: string
  client :: "Client option"
  sealed :: bool

text \<open>
  The state an operation runs in: the store, the world behind the library, the requests
  sent so far (with who sent them) and the lines logged so far.
\<close>

record 'w state =
  store :: Store
  world :: 'w
  trace :: "(actor \<times> request) list"
  logs :: "(Logger option \<times> line) list"

definition log :: "error \<Rightarrow> 'w state \<Rightarrow> 'w state" where
  "log v st = st\<lparr>logs := logs st @ [(ErrorLog (store st), Println v)]\<rparr>"

definition logf :: "string \<Rightarrow> arg list \<Rightarrow> 'w state \<Rightarrow> 'w state" where
  "logf format v st = st\<lparr>logs := logs st @ [(ErrorLog (store st), Printf format v)]\<rparr>"

text \<open>One request through the library: the world moves on and the trace grows by one.\<close>

definition send :: "actor \<Rightarrow> request \<Rightarrow> ('w \<Rightarrow> 'r \<times> 'w) \<Rightarrow> 'w state \<Rightarrow> 'r \<times> 'w state" where
  "send who rq f st =
     (let (r, w') = f (world st)
      in (r, st\<lparr>world := w', trace := trace st @ [(who, rq)]\<rparr>))"

definition kv_path :: "string \<Rightarrow> string \<Rightarrow> string" where
  "kv_path loc key = ''/kv/'' @ loc @ ''/'' @ key"

subsection \<open>Key operations\<close>

text \<open>
  \<^verbatim>\<open>Store.Get\<close>, \<^verbatim>\<open>Store.Create\<close> and \<^verbatim>\<open>Store.Delete\<close>. Each returns what the Go
  function returns, an absent error being \<open>None\<close>, together with the state it leaves.
  A reply of the library is Go's pair \<open>(secret, err)\<close>, in which both, one or none of
  the two may be nil; \<open>the entry\<close> is reached only where the entry is not nil.
\<close>

definition Get :: "'w vault \<Rightarrow> string \<Rightarrow> 'w state \<Rightarrow> (string \<times> error option) \<times> 'w state" where
  "Get api key st =
     (case client (store st) of
        None \<Rightarrow> (('''', Some errNoConnection), log errNoConnection st)
      | Some c \<Rightarrow>
          if sealed (store st) then (('''', Some errSealed), st)
          else
            let location = kv_path (Location (store st)) key;
                ((entry, err), st1) = send Caller (ReqRead location) (logical_read api c location) st
            in if err \<noteq> None \<or> entry = None then
                 (if err = None \<and> entry = None then (('''', Some ErrKeyNotFound), st1)
                  else (('''', err),
                        logf ''vault: failed to read '%s': %v'' [AStr location, AErr err] st1))
               else
                 (case Data (the entry) key of
                    None \<Rightarrow>
                      (('''', Some errNoValue),
                       logf ''vault: failed to read '%s': entry exists but no secret key is present''
                         [AStr location] st1)
                  | Some JNil \<Rightarrow>
                      (('''', Some errNoValue),
                       logf ''vault: failed to read '%s': entry exists but no secret key is present''
                         [AStr location] st1)
                  | Some (JString val) \<Rightarrow> ((val, None), st1)
                  | Some _ \<Rightarrow>
                      (('''', Some errInvalidFormat),
                       logf ''vault: failed to read '%s': invalid K/V format'' [AStr location] st1)))"

definition Create :: "'w vault \<Rightarrow> string \<Rightarrow> string \<Rightarrow> 'w state \<Rightarrow> error option \<times> 'w state" where
  "Create api key val st =
     (case client (store st) of
        None \<Rightarrow> (Some errNoConnection, log errNoConnection st)
      | Some c \<Rightarrow>
          if sealed (store st) then (Some errSealed, st)
          else
            let location = kv_path (Location (store st)) key;
                ((secret, err), st1) = send Caller (ReqRead location) (logical_read api c location) st
            in if err = None \<and> secret \<noteq> None then (Some ErrKeyExists, st1)
               else if err \<noteq> None then
                 (err, logf ''vault: failed to create '%s': %v'' [AStr location, AErr err] st1)
               else
                 let data = [key \<mapsto> JString val];
                     ((_, err2), st2) =
                        send Caller (ReqWrite location data) (logical_write api c location data) st1
                 in if err2 \<noteq> None then
                      (err2, logf ''vault: failed to create '%s': %v'' [AStr location, AErr err2] st2)
                    else (None, st2))"

definition Delete :: "'w vault \<Rightarrow> string \<Rightarrow> 'w state \<Rightarrow> error option \<times> 'w state" where
  "Delete api key st =
     (case client (store st) of
        None \<Rightarrow> (Some errNoConnection, log errNoConnection st)
      | Some c \<Rightarrow>
          if sealed (store st) then (Some errSealed, st)
          else
            let location = kv_path (Location (store st)) key;
                ((_, err), st1) = send Caller (ReqDelete location) (logical_delete api c location) st
            in if err \<noteq> None then
                 (err, logf ''vault: failed to delete '%s': %v'' [AStr location, AErr err] st1)
               else (err, st1))"

subsection \<open>Logging in\<close>

definition login_path :: string where
  "login_path = ''auth/approle/login''"

definition login_data :: "AppRole \<Rightarrow> string \<rightharpoonup> jvalue" where
  "login_data l = [''role_id'' \<mapsto> JString (ID l), ''secret_id'' \<mapsto> JString (Secret l)]"

text \<open>
  \<^verbatim>\<open>Store.authenticate\<close>, called by \<open>who\<close> on the store's client \<open>c\<close>. The named
  results \<^verbatim>\<open>token\<close> and \<^verbatim>\<open>ttl\<close> start as the empty string and 0.
\<close>

definition authenticate ::
  "'w vault \<Rightarrow> actor \<Rightarrow> Client \<Rightarrow> AppRole \<Rightarrow> 'w state \<Rightarrow> (string \<times> Duration \<times> error option) \<times> 'w state"
where
  "authenticate api who c l st =
     (let ((secret, err), st1) =
            send who (ReqWrite login_path (login_data l))
              (logical_write api c login_path (login_data l)) st
      in if err \<noteq> None \<or> secret = None then (('''', 0, err), st1)
         else
           let (token, err1) = TokenID (the secret)
           in if err1 \<noteq> None then ((token, 0, err1), st1)
              else
                let (ttl, err2) = TokenTTL (the secret)
                in ((token, ttl, err2), st1))"

text \<open>\<^verbatim>\<open>s.client.SetToken(token)\<close> on the store's client \<open>c\<close>.\<close>

definition SetToken :: "Client \<Rightarrow> string \<Rightarrow> 'w state \<Rightarrow> 'w state" where
  "SetToken c v st = st\<lparr>store := (store st)\<lparr>client := Some (c\<lparr>token := v\<rparr>)\<rparr>\<rparr>"

subsection \<open>The two background loops\<close>

text \<open>
  Both loops block only in a \<^verbatim>\<open>select\<close> between \<^verbatim>\<open>ctx.Done()\<close> and a timer. What the
  \<^verbatim>\<open>select\<close> chooses is the event of a step. A loop is a transition function on its
  local variables and the shared state; each step runs from one point where the loop
  reads shared state, calls the library or waits, to the next. Other activity may
  happen between any two steps. A loop running on a store without a client would
  dereference nil: that is the point \<open>MPanic\<close> or \<open>RPanic\<close>.
\<close>

datatype event = Cancelled | TimerFired

text \<open>
  \<^verbatim>\<open>Store.checkStatus\<close>. \<open>MPoll\<close>: at the head of the loop body (line 306).
  \<open>MWait\<close>: in the \<^verbatim>\<open>select\<close> (line 316). \<open>MDone\<close>: returned. \<open>timer\<close> is the
  duration the timer was last armed with, \<open>None\<close> while the timer is nil.
\<close>

datatype mon_pc = MPoll | MWait | MDone | MPanic

record monitor =
  delay :: Duration
  timer :: "Duration option"
  mpc :: mon_pc

definition checkStatus :: "Duration \<Rightarrow> monitor" where
  "checkStatus d =
     \<lparr>delay = (if d = 0 then 10 * Second else d), timer = None, mpc = MPoll\<rparr>"

definition checkStatus_step ::
  "'w vault \<Rightarrow> event \<Rightarrow> monitor \<times> 'w state \<Rightarrow> monitor \<times> 'w state"
where
  "checkStatus_step api ev ms =
     (let (m, st) = ms in
      case mpc m of
        MPoll \<Rightarrow>
          (case client (store st) of
             None \<Rightarrow> (m\<lparr>mpc := MPanic\<rparr>, st)
           | Some c \<Rightarrow>
               let (status, st1) = send Monitor ReqHealth (sys_health api c) st;
                   st2 = (case status of
                            Inr b \<Rightarrow> st1\<lparr>store := (store st1)\<lparr>sealed := b\<rparr>\<rparr>
                          | Inl err \<Rightarrow> st1)
               in (m\<lparr>timer := Some (delay m), mpc := MWait\<rparr>, st2))
      | MWait \<Rightarrow>
          (case ev of
             Cancelled \<Rightarrow> (m\<lparr>mpc := MDone\<rparr>, st)
           | TimerFired \<Rightarrow> (m\<lparr>mpc := MPoll\<rparr>, st))
      | MDone \<Rightarrow> (m, st)
      | MPanic \<Rightarrow> (m, st))"

text \<open>
  \<^verbatim>\<open>Store.renewAuthToken\<close>. The points of the loop:
  \<^item> \<open>RSealed\<close>: the condition of \<^verbatim>\<open>for s.sealed\<close> (line 334);
  \<^item> \<open>RPaused\<close>: the \<^verbatim>\<open>select\<close> on the one-second timer (line 336);
  \<^item> \<open>RAuth\<close>: \<^verbatim>\<open>if ttl == 0\<close> (line 347);
  \<^item> \<open>RRetry\<close>: the \<^verbatim>\<open>select\<close> on the retry timer (line 356);
  \<^item> \<open>RRenew\<close>: the \<^verbatim>\<open>select\<close> of the inner loop (line 373);
  \<^item> \<open>RDone\<close>: returned.
  \<open>rtimer\<close> is the duration the timer being waited on was armed with. \<open>ttl\<close> is the
  function's variable \<^verbatim>\<open>ttl\<close>; the \<^verbatim>\<open>ttl\<close> declared inside the inner loop (line 386) is
  a variable of its own and only feeds \<^verbatim>\<open>timer.Reset\<close>.
\<close>

datatype ren_pc = RSealed | RPaused | RAuth | RRetry | RRenew | RDone | RPanic

record renewer =
  login :: AppRole
  ttl :: Duration
  rtimer :: Duration
  rpc :: ren_pc

definition renewAuthToken :: "AppRole \<Rightarrow> Duration \<Rightarrow> renewer" where
  "renewAuthToken l t =
     \<lparr>login = (if Retry l = 0 then l\<lparr>Retry := 5 * Second\<rparr> else l),
      ttl = t, rtimer = 0, rpc = RSealed\<rparr>"

definition renewAuthToken_step ::
  "'w vault \<Rightarrow> event \<Rightarrow> renewer \<times> 'w state \<Rightarrow> renewer \<times> 'w state"
where
  "renewAuthToken_step api ev rs =
     (let (r, st) = rs in
      case rpc r of
        RSealed \<Rightarrow>
          (if sealed (store st) then (r\<lparr>rtimer := 1 * Second, rpc := RPaused\<rparr>, st)
           else (r\<lparr>rpc := RAuth\<rparr>, st))
      | RPaused \<Rightarrow>
          (case ev of
             Cancelled \<Rightarrow> (r\<lparr>rpc := RDone\<rparr>, st)
           | TimerFired \<Rightarrow> (r\<lparr>rpc := RSealed\<rparr>, st))
      | RAuth \<Rightarrow>
          (if ttl r = 0 then
             (case client (store st) of
                None \<Rightarrow> (r\<lparr>rpc := RPanic\<rparr>, st)
              | Some c \<Rightarrow>
                  let ((token, ttl1, err), st1) = authenticate api Renewer c (login r) st
                  in if err \<noteq> None then
                       (r\<lparr>ttl := 0, rtimer := Retry (login r), rpc := RRetry\<rparr>, st1)
                     else
                       (r\<lparr>ttl := ttl1, rtimer := half ttl1, rpc := RRenew\<rparr>,
                        SetToken c token st1))
           else (r\<lparr>rtimer := half (ttl r), rpc := RRenew\<rparr>, st))
      | RRetry \<Rightarrow>
          (case ev of
             Cancelled \<Rightarrow> (r\<lparr>rpc := RDone\<rparr>, st)
           | TimerFired \<Rightarrow> (r\<lparr>rpc := RSealed\<rparr>, st))
      | RRenew \<Rightarrow>
          (case ev of
             Cancelled \<Rightarrow> (r\<lparr>rpc := RDone\<rparr>, st)
           | TimerFired \<Rightarrow>
               (case client (store st) of
                  None \<Rightarrow> (r\<lparr>rpc := RPanic\<rparr>, st)
                | Some c \<Rightarrow>
                    let ((secret, err), st1) =
                          send Renewer (ReqRenewSelf (ttl r)) (renew_self api c (ttl r)) st
                    in if err \<noteq> None \<or> secret = None then (r\<lparr>ttl := 0, rpc := RSealed\<rparr>, st1)
                       else
                         let (ok, err1) = TokenIsRenewable (the secret)
                         in if \<not> ok \<or> err1 \<noteq> None then (r\<lparr>ttl := 0, rpc := RSealed\<rparr>, st1)
                            else
                              let (ttl1, err2) = TokenTTL (the secret)
                              in if err2 \<noteq> None \<or> ttl1 = 0 then
                                   (r\<lparr>ttl := 0, rpc := RSealed\<rparr>, st1)
                                 else (r\<lparr>rtimer := half ttl1\<rparr>, st1)))
      | RDone \<Rightarrow> (r, st)
      | RPanic \<Rightarrow> (r, st))"

subsection \<open>Authenticate\<close>

text \<open>
  \<^verbatim>\<open>Store.Authenticate\<close>. Besides the error it returns the two goroutines it starts, as
  their initial local states; \<open>None\<close> when it returns before starting them.
\<close>

definition Authenticate ::
  "'w vault \<Rightarrow> 'w state \<Rightarrow> (error option \<times> (monitor \<times> renewer) option) \<times> 'w state"
where
  "Authenticate api st =
     (let s = store st;
          tlsConfig = \<lparr>ClientKey = ClientKeyPath s, ClientCert = ClientCertPath s,
                       tlsCAPath = '''', tlsCACert = ''''\<rparr>;
          stat = (if CAPath s \<noteq> '''' then
                    (case os_stat api (CAPath s) (world st) of
                       Inl err \<Rightarrow> Inl (errFailedToOpen (CAPath s) err)
                     | Inr isDir \<Rightarrow>
                         Inr (if isDir then tlsConfig\<lparr>tlsCAPath := CAPath s\<rparr>
                              else tlsConfig\<lparr>tlsCACert := CAPath s\<rparr>))
                  else Inr tlsConfig)
      in case stat of
           Inl err \<Rightarrow> ((Some err, None), st)
         | Inr tlsConfig1 \<Rightarrow>
             (case new_client api \<lparr>Address = Addr s, TLS = tlsConfig1\<rparr> (world st) of
                Inl err \<Rightarrow> ((Some err, None), st)
              | Inr client0 \<Rightarrow>
                  let c = (if Namespace s \<noteq> '''' then client0\<lparr>namespace := Namespace s\<rparr>
                           else client0);
                      st1 = st\<lparr>store := s\<lparr>client := Some c\<rparr>\<rparr>;
                      (status, st2) = send Caller ReqHealth (sys_health api c) st1
                  in case status of
                       Inl err \<Rightarrow> ((Some err, None), st2)
                     | Inr b \<Rightarrow>
                         let st3 = st2\<lparr>store := (store st2)\<lparr>sealed := b\<rparr>\<rparr>
                         in if \<not> b then
                              let ((token, ttl, err), st4) =
                                    authenticate api Caller c (AppRole s) st3
                              in if err \<noteq> None then ((err, None), st4)
                                 else
                                   ((None, Some (checkStatus (StatusPingAfter s),
                                                 renewAuthToken (AppRole s) ttl)),
                                    SetToken c token st4)
                            else
                              ((None, Some (checkStatus (StatusPingAfter s),
                                            renewAuthToken (AppRole s) 0)),
                               st3)))"

subsection \<open>The store with its two loops running\<close>

text \<open>
  Callers, the monitor and the renewer share the store; anything else may change the
  world behind the library. A run is a list of actions, each one step of one of them.
\<close>

record 'w machine =
  shared :: "'w state"
  mon :: monitor
  ren :: renewer

datatype 'w action =
    AMonitor event
  | ARenewer event
  | AGet string
  | ACreate string string
  | ADelete string
  | AWorld "'w \<Rightarrow> 'w"

fun act :: "'w vault \<Rightarrow> 'w action \<Rightarrow> 'w machine \<Rightarrow> 'w machine" where
  "act api (AMonitor ev) m =
     (let (mo, st) = checkStatus_step api ev (mon m, shared m) in m\<lparr>shared := st, mon := mo\<rparr>)"
| "act api (ARenewer ev) m =
     (let (r, st) = renewAuthToken_step api ev (ren m, shared m) in m\<lparr>shared := st, ren := r\<rparr>)"
| "act api (AGet k) m = m\<lparr>shared := snd (Get api k (shared m))\<rparr>"
| "act api (ACreate k v) m = m\<lparr>shared := snd (Create api k v (shared m))\<rparr>"
| "act api (ADelete k) m = m\<lparr>shared := snd (Delete api k (shared m))\<rparr>"
| "act api (AWorld f) m = m\<lparr>shared := (shared m)\<lparr>world := f (world (shared m))\<rparr>\<rparr>"

fun run :: "'w vault \<Rightarrow> 'w action list \<Rightarrow> 'w machine \<Rightarrow> 'w machine" where
  "run api [] m = m"
| "run api (a # as) m = run api as (act api a m)"

text \<open>The requests one actor has sent, in order.\<close>

definition sent_by :: "actor \<Rightarrow> (actor \<times> request) list \<Rightarrow> request list" where
  "sent_by who tr = map snd (filter (\<lambda>e. fst e = who) tr)"

subsection \<open>A backend to run the model on\<close>

text \<open>
  An in-memory stand-in for a healthy Vault server, used to evaluate the model on
  concrete inputs. The world holds the K/V entries, the seal status, the one AppRole the
  server accepts and the lease it grants. A sealed server refuses every request but the
  health query.
\<close>

record kv_world =
  entries :: "string \<rightharpoonup> (string \<rightharpoonup> jvalue)"
  is_sealed :: bool
  role :: "string \<times> string"
  lease :: "string \<times> Duration"

definition plain_secret :: "(string \<rightharpoonup> jvalue) \<Rightarrow> secret" where
  "plain_secret d = \<lparr>Data = d, TokenID = ('''', None), TokenTTL = (0, None),
                      TokenIsRenewable = (False, None)\<rparr>"

definition auth_secret :: "string \<Rightarrow> Duration \<Rightarrow> secret" where
  "auth_secret t d = \<lparr>Data = Map.empty, TokenID = (t, None), TokenTTL = (d, None),
                       TokenIsRenewable = (True, None)\<rparr>"

definition kv_vault :: "kv_world vault" where
  "kv_vault =
     \<lparr>os_stat = (\<lambda>p w. Inl (Foreign ''no such file or directory'')),
      new_client = (\<lambda>cfg w. Inr \<lparr>config = cfg, namespace = '''', token = ''''\<rparr>),
      sys_health = (\<lambda>c w. (Inr (is_sealed w), w)),
      logical_read = (\<lambda>c p w.
         if is_sealed w then ((None, Some (Foreign ''Vault is sealed'')), w)
         else ((map_option plain_secret (entries w p), None), w)),
      logical_write = (\<lambda>c p d w.
         if is_sealed w then ((None, Some (Foreign ''Vault is sealed'')), w)
         else if p = login_path then
           (if d ''role_id'' = Some (JString (fst (role w))) \<and>
               d ''secret_id'' = Some (JString (snd (role w)))
            then ((Some (auth_secret (fst (lease w)) (snd (lease w))), None), w)
            else ((None, Some (Foreign ''invalid role or secret ID'')), w))
         else ((None, None), w\<lparr>entries := (entries w)(p \<mapsto> d)\<rparr>)),
      logical_delete = (\<lambda>c p w.
         if is_sealed w then ((None, Some (Foreign ''Vault is sealed'')), w)
         else ((None, None), w\<lparr>entries := (entries w)(p := None)\<rparr>)),
      renew_self = (\<lambda>c d w.
         if is_sealed w then ((None, Some (Foreign ''Vault is sealed'')), w)
         else if token c = fst (lease w) then
           ((Some (auth_secret (fst (lease w)) (snd (lease w))), None), w)
         else ((None, Some (Foreign ''permission denied'')), w))\<rparr>"

subsection \<open>Sample configurations\<close>

definition demo_role :: AppRole where
  "demo_role = \<lparr>ID = ''role'', Secret = ''s3cret'', Retry = 0\<rparr>"

definition demo_client :: Client where
  "demo_client =
     \<lparr>config = \<lparr>Address = ''https://vault:8200'',
                 TLS = \<lparr>ClientKey = '''', ClientCert = '''', tlsCAPath = '''', tlsCACert = ''''\<rparr>\<rparr>,
      namespace = '''', token = ''tok''\<rparr>"

definition demo_store :: "Client option \<Rightarrow> bool \<Rightarrow> Store" where
  "demo_store c b =
     \<lparr>Addr = ''https://vault:8200'', Location = ''keys'', AppRole = demo_role,
      StatusPingAfter = 0, ErrorLog = None, ClientKeyPath = '''', ClientCertPath = '''',
      CAPath = '''', Namespace = '''', client = c, sealed = b\<rparr>"

definition demo_world :: "bool \<Rightarrow> kv_world" where
  "demo_world b =
     \<lparr>entries = Map.empty, is_sealed = b, role = (''role'', ''s3cret''),
      lease = (''tok'', 10 * Second)\<rparr>"

definition demo_state :: "Client option \<Rightarrow> bool \<Rightarrow> kv_world state" where
  "demo_state c b = \<lparr>store = demo_store c b, world = demo_world b, trace = [], logs = []\<rparr>"

subsection \<open>Notions used to state the properties\<close>

text \<open>
  A backend on which a successful write to the K/V store can be read back: after
  \<open>logical_write\<close> of data \<open>d\<close> at a path \<open>p\<close> below \<^verbatim>\<open>/kv/\<close> returned no error,
  \<open>logical_read\<close> at \<open>p\<close> returns a secret with data \<open>d\<close> and no error, and leaves the
  backend as it was.
\<close>

definition read_after_write :: "'w vault \<Rightarrow> bool" where
  "read_after_write api =
     (\<forall>c p d w.
        take 4 p = ''/kv/'' \<and> snd (fst (logical_write api c p d w)) = None \<longrightarrow>
        (let w1 = snd (logical_write api c p d w)
         in snd (fst (logical_read api c p w1)) = None \<and>
            map_option Data (fst (fst (logical_read api c p w1))) = Some d \<and>
            snd (logical_read api c p w1) = w1))"

text \<open>The lines logged between two states, and whether a line carries a path.\<close>

definition new_lines :: "'w state \<Rightarrow> 'w state \<Rightarrow> (Logger option \<times> line) list" where
  "new_lines st st' = drop (length (logs st)) (logs st')"

fun names_path :: "string \<Rightarrow> line \<Rightarrow> bool" where
  "names_path p (Println e) = False"
| "names_path p (Printf f args) = (AStr p \<in> set args)"

text \<open>
  The requests added to the trace between two states; whether a list of requests is
  empty or begins with a given one; whether the \<open>sealed\<close> flag is set in every state a
  run passes through.
\<close>

definition since :: "'w state \<Rightarrow> 'w state \<Rightarrow> (actor \<times> request) list" where
  "since st st' = drop (length (trace st)) (trace st')"


fun sealed_during :: "'w vault \<Rightarrow> 'w action list \<Rightarrow> 'w machine \<Rightarrow> bool" where
  "sealed_during api [] m = sealed (store (shared m))"
| "sealed_during api (a # as) m =
     (sealed (store (shared m)) \<and> sealed_during api as (act api a m))"

text \<open>One round of three renewer steps, each taken when its wait (if any) ends by the timer.\<close>

definition rounds :: "nat \<Rightarrow> 'w action list" where
  "rounds n = concat (replicate n [ARenewer TimerFired, ARenewer TimerFired, ARenewer TimerFired])"

text \<open>The store with its two loops, as a successful \<open>Authenticate\<close> leaves them.\<close>

definition start :: "'w vault \<Rightarrow> 'w state \<Rightarrow> 'w machine option" where
  "start api st =
     (case Authenticate api st of
        ((None, Some (mo, r)), st') \<Rightarrow> Some \<lparr>shared = st', mon = mo, ren = r\<rparr>
      | _ \<Rightarrow> None)"

text \<open>The sample backend with a fixed reply to every login.\<close>

definition login_reply_vault :: "reply \<Rightarrow> kv_world vault" where
  "login_reply_vault rp =
     kv_vault\<lparr>logical_write :=
       (\<lambda>c p d w. if p = login_path then (rp, w) else logical_write kv_vault c p d w)\<rparr>"

text \<open>
  Sample runs: the store after \<open>Authenticate\<close> on the unsealed sample backend, and the
  same store once the renewer waits for its first renewal, the backend has been sealed
  and the monitor has noticed.
\<close>

definition demo_machine :: "kv_world machine" where
  "demo_machine =
     \<lparr>shared = \<lparr>store = demo_store (Some demo_client) False, world = demo_world False,
                trace = [(Caller, ReqHealth), (Caller, ReqWrite login_path (login_data demo_role))],
                logs = []\<rparr>,
      mon = \<lparr>delay = 10 * Second, timer = None, mpc = MPoll\<rparr>,
      ren = \<lparr>login = demo_role\<lparr>Retry := 5 * Second\<rparr>, ttl = 10 * Second, rtimer = 0,
             rpc = RSealed\<rparr>\<rparr>"

definition sealed_mid_lease :: "kv_world machine" where
  "sealed_mid_lease =
     run kv_vault
       [ARenewer TimerFired, ARenewer TimerFired, AWorld (\<lambda>w. w\<lparr>is_sealed := True\<rparr>),
        AMonitor TimerFired]
       demo_machine"

section \<open>Properties\<close>

subsection \<open>Auxiliary facts\<close>

lemma send_eq:
  "send who rq f st =
     (fst (f (world st)), st\<lparr>world := snd (f (world st)), trace := trace st @ [(who, rq)]\<rparr>)"
  by (simp add: send_def split: prod.split)

subsection \<open>Key operations on a sealed store\<close>

text \<open>
  C2. On a store that has a client and whose \<open>sealed\<close> flag is set, each of Get, Create
  and Delete returns the sealed error (HTTP status forbidden) and leaves the whole state
  as it was: nothing is sent to the backend (the trace is unchanged), nothing is logged.
\<close>

theorem sealed_refuses_without_io:
  assumes "client (store st) = Some c" and "sealed (store st)"
  shows "Get api key st = (('''', Some errSealed), st) \<and>
         Create api key val st = (Some errSealed, st) \<and>
         Delete api key st = (Some errSealed, st)"
  using assms by (simp add: Get_def Create_def Delete_def)

theorem sealed_refuses_without_io_witness:
  "Get kv_vault ''db-key'' (demo_state (Some demo_client) True) =
      (('''', Some errSealed), demo_state (Some demo_client) True) \<and>
   Create kv_vault ''db-key'' ''secret123'' (demo_state (Some demo_client) True) =
      (Some errSealed, demo_state (Some demo_client) True) \<and>
   Delete kv_vault ''db-key'' (demo_state (Some demo_client) True) =
      (Some errSealed, demo_state (Some demo_client) True) \<and>
   trace (snd (Create kv_vault ''db-key'' ''secret123'' (demo_state (Some demo_client) True))) = []"
  using sealed_refuses_without_io
    [of "demo_state (Some demo_client) True" demo_client kv_vault "''db-key''" "''secret123''"]
  by (simp add: demo_state_def demo_store_def)

subsection \<open>The outcomes of Get\<close>

text \<open>
  C3. On a store that has a client and is not sealed, Get reads the entry at the derived
  path once, and the reply \<open>(entry, err)\<close> decides the outcome, exactly one of:
  \<^item> an error from the library is returned as it is and logged with the path;
  \<^item> no error and no entry: \<open>ErrKeyNotFound\<close>;
  \<^item> an entry without a value under the key (the field is missing or nil): the error
    "K/V entry does not contain any value", logged with the path;
  \<^item> an entry whose value is not a string: the error "invalid K/V entry format", logged
    with the path;
  \<^item> otherwise the entry's string value, with no error.
\<close>

theorem Get_outcomes:
  assumes "client (store st) = Some c" and "\<not> sealed (store st)"
    and "logical_read api c (kv_path (Location (store st)) key) (world st) = ((entry, err), w')"
  shows
    "(let loc = kv_path (Location (store st)) key;
          st1 = st\<lparr>world := w', trace := trace st @ [(Caller, ReqRead loc)]\<rparr>;
          logged = (\<lambda>l. st1\<lparr>logs := logs st @ [(ErrorLog (store st), l)]\<rparr>)
      in (\<forall>e. err = Some e \<longrightarrow>
            Get api key st =
              (('''', Some e),
               logged (Printf ''vault: failed to read '%s': %v'' [AStr loc, AErr (Some e)]))) \<and>
         (err = None \<and> entry = None \<longrightarrow> Get api key st = (('''', Some ErrKeyNotFound), st1)) \<and>
         (\<forall>s. err = None \<and> entry = Some s \<and> (Data s key = None \<or> Data s key = Some JNil) \<longrightarrow>
            Get api key st =
              (('''', Some errNoValue),
               logged (Printf ''vault: failed to read '%s': entry exists but no secret key is present''
                         [AStr loc]))) \<and>
         (\<forall>s x. err = None \<and> entry = Some s \<and> Data s key = Some x \<and> x \<noteq> JNil \<and>
                (\<forall>v. x \<noteq> JString v) \<longrightarrow>
            Get api key st =
              (('''', Some errInvalidFormat),
               logged (Printf ''vault: failed to read '%s': invalid K/V format'' [AStr loc]))) \<and>
         (\<forall>s v. err = None \<and> entry = Some s \<and> Data s key = Some (JString v) \<longrightarrow>
            Get api key st = ((v, None), st1)))"
proof -
  have r: "fst (logical_read api c (kv_path (Location (store st)) key) (world st)) = (entry, err)"
       "snd (logical_read api c (kv_path (Location (store st)) key) (world st)) = w'"
    using assms(3) by simp_all
  show ?thesis
    using assms(1,2) r
    by (auto simp: Get_def send_eq logf_def Let_def split: jvalue.splits option.splits)
qed

theorem Get_outcomes_witness:
  "Get kv_vault ''k''
     ((demo_state (Some demo_client) False)
        \<lparr>world := (demo_world False)\<lparr>entries := [''/kv/keys/k'' \<mapsto> [''k'' \<mapsto> JString ''v'']]\<rparr>\<rparr>) =
   ((''v'', None),
    (demo_state (Some demo_client) False)
        \<lparr>world := (demo_world False)\<lparr>entries := [''/kv/keys/k'' \<mapsto> [''k'' \<mapsto> JString ''v'']]\<rparr>,
          trace := [(Caller, ReqRead ''/kv/keys/k'')]\<rparr>)"
  using Get_outcomes
    [of "(demo_state (Some demo_client) False)
        \<lparr>world := (demo_world False)\<lparr>entries := [''/kv/keys/k'' \<mapsto> [''k'' \<mapsto> JString ''v'']]\<rparr>\<rparr>"
        demo_client kv_vault "''k''" "Some (plain_secret [''k'' \<mapsto> JString ''v''])" None
        "(demo_world False)\<lparr>entries := [''/kv/keys/k'' \<mapsto> [''k'' \<mapsto> JString ''v'']]\<rparr>"]
  by (simp add: demo_state_def demo_store_def demo_world_def kv_vault_def kv_path_def
        plain_secret_def)

subsection \<open>Create does not overwrite\<close>

lemma kv_vault_read_after_write: "read_after_write kv_vault"
  by (auto simp: read_after_write_def kv_vault_def Let_def plain_secret_def login_path_def)

text \<open>
  C1. On a store that has a client and is not sealed: Create begins by reading the
  derived path. If the backend reads back what it was written and the first
  \<open>Create key val\<close> succeeded, a second Create of the same key (with any value) returns
  \<open>ErrKeyExists\<close>, sends nothing but that read, leaves the backend as the first call left
  it, and Get still returns \<open>val\<close>. If the read before the write returns an error, Create
  returns that error and the read is the only request it has sent.
\<close>

theorem Create_twice:
  assumes "client (store st) = Some c" and "\<not> sealed (store st)"
  shows
    "(let loc = kv_path (Location (store st)) key in
      (\<exists>rest. trace (snd (Create api key val st)) = trace st @ (Caller, ReqRead loc) # rest) \<and>
      (read_after_write api \<and> fst (Create api key val st) = None \<longrightarrow>
         (let st1 = snd (Create api key val st);
              st2 = snd (Create api key val' st1)
          in fst (Create api key val' st1) = Some ErrKeyExists \<and>
             st2 = st1\<lparr>trace := trace st1 @ [(Caller, ReqRead loc)]\<rparr> \<and>
             fst (Get api key st2) = (val, None))) \<and>
      (\<forall>e. snd (fst (logical_read api c loc (world st))) = Some e \<longrightarrow>
         fst (Create api key val st) = Some e \<and>
         trace (snd (Create api key val st)) = trace st @ [(Caller, ReqRead loc)]))"
proof -
  let ?loc = "kv_path (Location (store st)) key"
  have a: "\<exists>rest. trace (snd (Create api key val st)) = trace st @ (Caller, ReqRead ?loc) # rest"
    using assms by (auto simp: Create_def send_eq logf_def Let_def split: prod.splits)
  have c: "\<forall>e. snd (fst (logical_read api c ?loc (world st))) = Some e \<longrightarrow>
         fst (Create api key val st) = Some e \<and>
         trace (snd (Create api key val st)) = trace st @ [(Caller, ReqRead ?loc)]"
    using assms by (auto simp: Create_def send_eq logf_def Let_def split: prod.splits)
  have b: "fst (Create api key val' (snd (Create api key val st))) = Some ErrKeyExists \<and>
           snd (Create api key val' (snd (Create api key val st))) =
             (snd (Create api key val st))
               \<lparr>trace := trace (snd (Create api key val st)) @ [(Caller, ReqRead ?loc)]\<rparr> \<and>
           fst (Get api key (snd (Create api key val' (snd (Create api key val st))))) = (val, None)"
    if law: "read_after_write api" and ok: "fst (Create api key val st) = None"
  proof -
    define w0 where "w0 = snd (logical_read api c ?loc (world st))"
    define d where "d = [key \<mapsto> JString val]"
    define w1 where "w1 = snd (logical_write api c ?loc d w0)"
    define st1 where "st1 = snd (Create api key val st)"
    have wr: "snd (fst (logical_write api c ?loc d w0)) = None"
      using ok assms unfolding w0_def d_def
      by (auto simp: Create_def send_eq logf_def Let_def case_prod_beta split: if_splits)
    have st1: "st1 =
                 st\<lparr>world := w1, trace := trace st @ [(Caller, ReqRead ?loc), (Caller, ReqWrite ?loc d)]\<rparr>"
      using ok assms unfolding w0_def d_def w1_def st1_def
      by (auto simp: Create_def send_eq logf_def Let_def case_prod_beta split: if_splits)
    have kv: "take 4 ?loc = ''/kv/''" by (simp add: kv_path_def)
    from law wr kv have rd: "snd (fst (logical_read api c ?loc w1)) = None"
        "map_option Data (fst (fst (logical_read api c ?loc w1))) = Some d"
        "snd (logical_read api c ?loc w1) = w1"
      unfolding read_after_write_def w1_def by (auto simp: Let_def)
    from rd(2) obtain s where s: "fst (fst (logical_read api c ?loc w1)) = Some s" "Data s = d"
      by auto
    have f1: "client (store st1) = Some c" "\<not> sealed (store st1)" "world st1 = w1"
        "Location (store st1) = Location (store st)"
      using assms by (simp_all add: st1)
    have c2: "Create api key val' st1 =
               (Some ErrKeyExists, st1\<lparr>trace := trace st1 @ [(Caller, ReqRead ?loc)]\<rparr>)"
      using f1 rd s by (simp add: Create_def send_eq Let_def case_prod_beta)
    have "fst (Get api key (st1\<lparr>trace := trace st1 @ [(Caller, ReqRead ?loc)]\<rparr>)) = (val, None)"
      using f1 rd s by (simp add: Get_def send_eq Let_def case_prod_beta d_def)
    with c2 show ?thesis unfolding st1_def by simp
  qed
  from b have b': "read_after_write api \<and> fst (Create api key val st) = None \<longrightarrow>
           fst (Create api key val' (snd (Create api key val st))) = Some ErrKeyExists \<and>
           snd (Create api key val' (snd (Create api key val st))) =
             (snd (Create api key val st))
               \<lparr>trace := trace (snd (Create api key val st)) @ [(Caller, ReqRead ?loc)]\<rparr> \<and>
           fst (Get api key (snd (Create api key val' (snd (Create api key val st))))) = (val, None)"
    by blast
  show ?thesis unfolding Let_def using a b' c by blast
qed

theorem Create_twice_witness:
  "fst (Create kv_vault ''k'' ''v'' (demo_state (Some demo_client) False)) = None \<and>
   fst (Create kv_vault ''k'' ''w'' (snd (Create kv_vault ''k'' ''v'' (demo_state (Some demo_client) False))))
     = Some ErrKeyExists \<and>
   entries (world (snd (Create kv_vault ''k'' ''w''
      (snd (Create kv_vault ''k'' ''v'' (demo_state (Some demo_client) False)))))) ''/kv/keys/k''
     = Some [''k'' \<mapsto> JString ''v''] \<and>
   sent_by Caller (trace (snd (Create kv_vault ''k'' ''w''
      (snd (Create kv_vault ''k'' ''v'' (demo_state (Some demo_client) False)))))) =
     [ReqRead ''/kv/keys/k'', ReqWrite ''/kv/keys/k'' [''k'' \<mapsto> JString ''v''], ReqRead ''/kv/keys/k''] \<and>
   fst (Get kv_vault ''k'' (snd (Create kv_vault ''k'' ''w''
      (snd (Create kv_vault ''k'' ''v'' (demo_state (Some demo_client) False)))))) = (''v'', None)"
proof -
  have ok: "fst (Create kv_vault ''k'' ''v'' (demo_state (Some demo_client) False)) = None"
    by (simp add: Create_def send_eq Let_def case_prod_beta demo_state_def demo_store_def
          demo_world_def kv_vault_def kv_path_def login_path_def)
  have st1: "snd (Create kv_vault ''k'' ''v'' (demo_state (Some demo_client) False)) =
     (demo_state (Some demo_client) False)
       \<lparr>world := (demo_world False)\<lparr>entries := [''/kv/keys/k'' \<mapsto> [''k'' \<mapsto> JString ''v'']]\<rparr>,
         trace := [(Caller, ReqRead ''/kv/keys/k''),
                   (Caller, ReqWrite ''/kv/keys/k'' [''k'' \<mapsto> JString ''v''])]\<rparr>"
    by (simp add: Create_def send_eq Let_def case_prod_beta demo_state_def demo_store_def
          demo_world_def kv_vault_def kv_path_def login_path_def)
  have h1: "client (store (demo_state (Some demo_client) False)) = Some demo_client"
    and h2: "\<not> sealed (store (demo_state (Some demo_client) False))"
    and loc: "kv_path (Location (store (demo_state (Some demo_client) False))) ''k'' = ''/kv/keys/k''"
    by (simp_all add: demo_state_def demo_store_def kv_path_def)
  note T = Create_twice [OF h1 h2, of "''k''" kv_vault "''v''" "''w''", unfolded Let_def loc]
  from T kv_vault_read_after_write ok
  have "fst (Create kv_vault ''k'' ''w'' (snd (Create kv_vault ''k'' ''v'' (demo_state (Some demo_client) False))))
          = Some ErrKeyExists"
    and "snd (Create kv_vault ''k'' ''w'' (snd (Create kv_vault ''k'' ''v'' (demo_state (Some demo_client) False))))
          = (snd (Create kv_vault ''k'' ''v'' (demo_state (Some demo_client) False)))
             \<lparr>trace := trace (snd (Create kv_vault ''k'' ''v'' (demo_state (Some demo_client) False))) @
                        [(Caller, ReqRead ''/kv/keys/k'')]\<rparr>"
    and "fst (Get kv_vault ''k'' (snd (Create kv_vault ''k'' ''w''
          (snd (Create kv_vault ''k'' ''v'' (demo_state (Some demo_client) False)))))) = (''v'', None)"
    by blast+
  then show ?thesis
    using ok by (simp add: st1 sent_by_def)
qed

subsection \<open>Which errors of the key operations are logged\<close>

text \<open>
  Not every error of a key operation is logged. The sealed error, \<open>ErrKeyNotFound\<close> and
  \<open>ErrKeyExists\<close> are returned with nothing logged, and the line logged for a store
  without a client is the bare error, with no path.
\<close>

theorem unlogged_errors_counterexample:
  "snd (fst (Get kv_vault ''k'' (demo_state (Some demo_client) True))) = Some errSealed \<and>
   logs (snd (Get kv_vault ''k'' (demo_state (Some demo_client) True))) = [] \<and>
   snd (fst (Get kv_vault ''k'' (demo_state (Some demo_client) False))) = Some ErrKeyNotFound \<and>
   logs (snd (Get kv_vault ''k'' (demo_state (Some demo_client) False))) = [] \<and>
   fst (Create kv_vault ''k'' ''w'' (snd (Create kv_vault ''k'' ''v'' (demo_state (Some demo_client) False))))
     = Some ErrKeyExists \<and>
   logs (snd (Create kv_vault ''k'' ''w'' (snd (Create kv_vault ''k'' ''v'' (demo_state (Some demo_client) False)))))
     = [] \<and>
   fst (Delete kv_vault ''k'' (demo_state None False)) = Some errNoConnection \<and>
   logs (snd (Delete kv_vault ''k'' (demo_state None False))) = [(None, Println errNoConnection)]"
  by (simp add: Get_def Create_def Delete_def send_eq log_def Let_def case_prod_beta demo_state_def
        demo_store_def demo_world_def kv_vault_def kv_path_def login_path_def)


text \<open>
  C8, as the code has it. Every error of Get, Create and Delete is the operation's return
  value. On a store without a client the three operations return \<open>errNoConnection\<close> and
  log that error alone, without a path. On a sealed store they return \<open>errSealed\<close> and log
  nothing. Otherwise \<open>ErrKeyNotFound\<close> (Get, nothing found) and \<open>ErrKeyExists\<close> (Create,
  entry found) are returned with nothing logged, and every other error, which is an error
  the library returned or one of Get's two malformed-entry errors, is logged in one line
  that carries the path. An operation that succeeds logs nothing.
\<close>

theorem key_operation_errors:
  "(let loc = kv_path (Location (store st)) key;
        dest = ErrorLog (store st);
        ((v, gerr), gst) = Get api key st;
        (cerr, cst) = Create api key val st;
        (derr, dst) = Delete api key st
    in (case client (store st) of
          None \<Rightarrow>
            gerr = Some errNoConnection \<and> new_lines st gst = [(dest, Println errNoConnection)] \<and>
            cerr = Some errNoConnection \<and> new_lines st cst = [(dest, Println errNoConnection)] \<and>
            derr = Some errNoConnection \<and> new_lines st dst = [(dest, Println errNoConnection)]
        | Some c \<Rightarrow>
            if sealed (store st) then
              gerr = Some errSealed \<and> new_lines st gst = [] \<and>
              cerr = Some errSealed \<and> new_lines st cst = [] \<and>
              derr = Some errSealed \<and> new_lines st dst = []
            else
              (case gerr of
                 None \<Rightarrow> new_lines st gst = []
               | Some e \<Rightarrow>
                   if fst (logical_read api c loc (world st)) = (None, None)
                   then e = ErrKeyNotFound \<and> new_lines st gst = []
                   else (snd (fst (logical_read api c loc (world st))) = Some e \<or>
                         e = errNoValue \<or> e = errInvalidFormat) \<and>
                        (\<exists>l. new_lines st gst = [(dest, l)] \<and> names_path loc l)) \<and>
              (case cerr of
                 None \<Rightarrow> new_lines st cst = []
               | Some e \<Rightarrow>
                   if snd (fst (logical_read api c loc (world st))) = None
                      \<and> fst (fst (logical_read api c loc (world st))) \<noteq> None
                   then e = ErrKeyExists \<and> new_lines st cst = []
                   else (snd (fst (logical_read api c loc (world st))) = Some e \<or>
                         snd (fst (logical_write api c loc [key \<mapsto> JString val]
                                     (snd (logical_read api c loc (world st))))) = Some e) \<and>
                        (\<exists>l. new_lines st cst = [(dest, l)] \<and> names_path loc l)) \<and>
              (case derr of
                 None \<Rightarrow> new_lines st dst = []
               | Some e \<Rightarrow>
                   snd (fst (logical_delete api c loc (world st))) = Some e \<and>
                   (\<exists>l. new_lines st dst = [(dest, l)] \<and> names_path loc l))))"
proof (cases "client (store st)")
  case None
  then show ?thesis
    by (simp add: Get_def Create_def Delete_def log_def new_lines_def Let_def)
next
  case (Some c)
  show ?thesis
  proof (cases "sealed (store st)")
    case True
    with Some show ?thesis
      by (simp add: Get_def Create_def Delete_def new_lines_def Let_def)
  next
    case False
    have g: "case snd (fst (Get api key st)) of
                 None \<Rightarrow> new_lines st (snd (Get api key st)) = []
               | Some e \<Rightarrow>
                   if fst (logical_read api c (kv_path (Location (store st)) key) (world st)) = (None, None)
                   then e = ErrKeyNotFound \<and> new_lines st (snd (Get api key st)) = []
                   else (snd (fst (logical_read api c (kv_path (Location (store st)) key) (world st))) = Some e \<or>
                         e = errNoValue \<or> e = errInvalidFormat) \<and>
                        (\<exists>l. new_lines st (snd (Get api key st)) = [(ErrorLog (store st), l)] \<and>
                        names_path (kv_path (Location (store st)) key) l)"
      using Some False
      by (auto simp: Get_def send_eq logf_def new_lines_def Let_def case_prod_beta prod_eq_iff
            split: option.splits jvalue.splits)
    have c: "case fst (Create api key val st) of
                 None \<Rightarrow> new_lines st (snd (Create api key val st)) = []
               | Some e \<Rightarrow>
                   if snd (fst (logical_read api c (kv_path (Location (store st)) key) (world st))) = None
                      \<and> fst (fst (logical_read api c (kv_path (Location (store st)) key) (world st))) \<noteq> None
                   then e = ErrKeyExists \<and> new_lines st (snd (Create api key val st)) = []
                   else (snd (fst (logical_read api c (kv_path (Location (store st)) key) (world st))) = Some e \<or>
                         snd (fst (logical_write api c (kv_path (Location (store st)) key) [key \<mapsto> JString val]
                                     (snd (logical_read api c (kv_path (Location (store st)) key) (world st))))) = Some e) \<and>
                        (\<exists>l. new_lines st (snd (Create api key val st)) = [(ErrorLog (store st), l)] \<and>
                        names_path (kv_path (Location (store st)) key) l)"
      using Some False
      by (auto simp: Create_def send_eq logf_def new_lines_def Let_def case_prod_beta
            split: option.splits)
    have d: "case fst (Delete api key st) of
                 None \<Rightarrow> new_lines st (snd (Delete api key st)) = []
               | Some e \<Rightarrow>
                   snd (fst (logical_delete api c (kv_path (Location (store st)) key) (world st))) = Some e \<and>
                   (\<exists>l. new_lines st (snd (Delete api key st)) = [(ErrorLog (store st), l)] \<and>
                        names_path (kv_path (Location (store st)) key) l)"
      using Some False
      by (auto simp: Delete_def send_eq logf_def new_lines_def Let_def case_prod_beta
            split: option.splits)
    from g c d Some False show ?thesis
      by (simp add: Let_def case_prod_beta)
  qed
qed

theorem key_operation_errors_witness:
  "snd (fst (Get kv_vault ''k'' ((demo_state (Some demo_client) False)\<lparr>world := demo_world True\<rparr>)))
     = Some (Foreign ''Vault is sealed'') \<and>
   new_lines ((demo_state (Some demo_client) False)\<lparr>world := demo_world True\<rparr>)
     (snd (Get kv_vault ''k'' ((demo_state (Some demo_client) False)\<lparr>world := demo_world True\<rparr>)))
     = [(None, Printf ''vault: failed to read '%s': %v''
                 [AStr ''/kv/keys/k'', AErr (Some (Foreign ''Vault is sealed''))])] \<and>
   names_path ''/kv/keys/k''
     (Printf ''vault: failed to read '%s': %v''
                 [AStr ''/kv/keys/k'', AErr (Some (Foreign ''Vault is sealed''))]) \<and>
   fst (Delete kv_vault ''k'' ((demo_state (Some demo_client) False)\<lparr>world := demo_world True\<rparr>))
     = Some (Foreign ''Vault is sealed'')"
  using key_operation_errors
    [of "(demo_state (Some demo_client) False)\<lparr>world := demo_world True\<rparr>" "''k''" kv_vault "''v''"]
  by (simp add: Get_def Delete_def send_eq logf_def new_lines_def Let_def case_prod_beta demo_state_def
        demo_store_def demo_world_def kv_vault_def kv_path_def)

subsection \<open>Steps of the two loops\<close>

text \<open>
  What one step does at each point of a loop, what every step leaves alone, and what holds
  along every run of the store with its loops.
\<close>

lemma authenticate_eq:
  "authenticate api who c l st =
     (let rp = fst (logical_write api c login_path (login_data l) (world st));
          st1 = st\<lparr>world := snd (logical_write api c login_path (login_data l) (world st)),
                   trace := trace st @ [(who, ReqWrite login_path (login_data l))]\<rparr>
      in (if snd rp \<noteq> None \<or> fst rp = None then ('''', 0, snd rp)
          else if snd (TokenID (the (fst rp))) \<noteq> None
               then (fst (TokenID (the (fst rp))), 0, snd (TokenID (the (fst rp))))
          else (fst (TokenID (the (fst rp))), fst (TokenTTL (the (fst rp))),
                snd (TokenTTL (the (fst rp)))),
          st1))"
  by (simp add: authenticate_def send_eq Let_def case_prod_beta)

lemma authenticate_state:
  "snd (authenticate api who c l st) =
     st\<lparr>world := snd (logical_write api c login_path (login_data l) (world st)),
        trace := trace st @ [(who, ReqWrite login_path (login_data l))]\<rparr>"
  by (simp add: authenticate_eq Let_def)

lemma ren_step_RSealed:
  "rpc r = RSealed \<Longrightarrow>
   renewAuthToken_step api ev (r, st) =
     (if sealed (store st) then (r\<lparr>rtimer := 1 * Second, rpc := RPaused\<rparr>, st)
      else (r\<lparr>rpc := RAuth\<rparr>, st))"
  by (simp add: renewAuthToken_step_def)

lemma ren_step_wait:
  "rpc r = RPaused \<or> rpc r = RRetry \<Longrightarrow>
   renewAuthToken_step api ev (r, st) =
     (case ev of Cancelled \<Rightarrow> (r\<lparr>rpc := RDone\<rparr>, st) | TimerFired \<Rightarrow> (r\<lparr>rpc := RSealed\<rparr>, st))"
  by (auto simp: renewAuthToken_step_def)

lemma ren_step_stopped:
  "rpc r = RDone \<or> rpc r = RPanic \<Longrightarrow> renewAuthToken_step api ev (r, st) = (r, st)"
  by (auto simp: renewAuthToken_step_def)

lemma ren_step_RAuth:
  "rpc r = RAuth \<Longrightarrow> ttl r = 0 \<Longrightarrow> client (store st) = Some c \<Longrightarrow>
   renewAuthToken_step api ev (r, st) =
     (let res = fst (authenticate api Renewer c (login r) st);
          st1 = snd (authenticate api Renewer c (login r) st)
      in if snd (snd res) \<noteq> None
         then (r\<lparr>ttl := 0, rtimer := Retry (login r), rpc := RRetry\<rparr>, st1)
         else (r\<lparr>ttl := fst (snd res), rtimer := half (fst (snd res)), rpc := RRenew\<rparr>,
               SetToken c (fst res) st1))"
  by (simp add: renewAuthToken_step_def Let_def case_prod_beta)

lemma ren_step_RAuth_lease:
  "rpc r = RAuth \<Longrightarrow> ttl r \<noteq> 0 \<Longrightarrow>
   renewAuthToken_step api ev (r, st) = (r\<lparr>rtimer := half (ttl r), rpc := RRenew\<rparr>, st)"
  by (simp add: renewAuthToken_step_def)

lemma ren_step_RRenew:
  "rpc r = RRenew \<Longrightarrow> client (store st) = Some c \<Longrightarrow>
   renewAuthToken_step api TimerFired (r, st) =
     (let rp = fst (renew_self api c (ttl r) (world st));
          st1 = st\<lparr>world := snd (renew_self api c (ttl r) (world st)),
                   trace := trace st @ [(Renewer, ReqRenewSelf (ttl r))]\<rparr>
      in if snd rp \<noteq> None \<or> fst rp = None
            \<or> \<not> fst (TokenIsRenewable (the (fst rp))) \<or> snd (TokenIsRenewable (the (fst rp))) \<noteq> None
            \<or> snd (TokenTTL (the (fst rp))) \<noteq> None \<or> fst (TokenTTL (the (fst rp))) = 0
         then (r\<lparr>ttl := 0, rpc := RSealed\<rparr>, st1)
         else (r\<lparr>rtimer := half (fst (TokenTTL (the (fst rp))))\<rparr>, st1))"
  by (auto simp: renewAuthToken_step_def send_eq Let_def case_prod_beta)

lemma ren_step_RRenew_cancel:
  "rpc r = RRenew \<Longrightarrow> renewAuthToken_step api Cancelled (r, st) = (r\<lparr>rpc := RDone\<rparr>, st)"
  by (simp add: renewAuthToken_step_def)


lemma mon_step_MPoll:
  "mpc m = MPoll \<Longrightarrow> client (store st) = Some c \<Longrightarrow>
   checkStatus_step api ev (m, st) =
     (m\<lparr>timer := Some (delay m), mpc := MWait\<rparr>,
      (case fst (sys_health api c (world st)) of
         Inr b \<Rightarrow> st\<lparr>store := (store st)\<lparr>sealed := b\<rparr>\<rparr>
       | Inl e \<Rightarrow> st)
      \<lparr>world := snd (sys_health api c (world st)), trace := trace st @ [(Monitor, ReqHealth)]\<rparr>)"
  by (simp add: checkStatus_step_def send_eq Let_def case_prod_beta split: sum.splits)

lemma mon_step_MWait:
  "mpc m = MWait \<Longrightarrow>
   checkStatus_step api ev (m, st) =
     (case ev of Cancelled \<Rightarrow> (m\<lparr>mpc := MDone\<rparr>, st) | TimerFired \<Rightarrow> (m\<lparr>mpc := MPoll\<rparr>, st))"
  by (simp add: checkStatus_step_def)

lemma mon_step_stopped:
  "mpc m = MDone \<or> mpc m = MPanic \<Longrightarrow> checkStatus_step api ev (m, st) = (m, st)"
  by (auto simp: checkStatus_step_def)

lemma mon_step_frame:
  "store (snd (checkStatus_step api ev (m, st))) =
     (store st)\<lparr>sealed := sealed (store (snd (checkStatus_step api ev (m, st))))\<rparr> \<and>
   logs (snd (checkStatus_step api ev (m, st))) = logs st \<and>
   delay (fst (checkStatus_step api ev (m, st))) = delay m"
  by (cases "mpc m"; cases "client (store st)"; cases ev)
     (auto simp: checkStatus_step_def send_eq Let_def case_prod_beta split: sum.splits)

lemma mon_step_exit:
  "mpc m \<noteq> MDone \<Longrightarrow> mpc (fst (checkStatus_step api ev (m, st))) = MDone \<Longrightarrow>
   ev = Cancelled \<and> mpc m = MWait"
  by (cases "mpc m"; cases "client (store st)"; cases ev)
     (auto simp: checkStatus_step_def send_eq Let_def case_prod_beta split: sum.splits)


lemma ren_step_frame:
  "sealed (store (snd (renewAuthToken_step api ev (r, st)))) = sealed (store st) \<and>
   (client (store (snd (renewAuthToken_step api ev (r, st)))) = None \<longleftrightarrow> client (store st) = None) \<and>
   logs (snd (renewAuthToken_step api ev (r, st))) = logs st \<and>
   login (fst (renewAuthToken_step api ev (r, st))) = login r"
  by (cases "rpc r"; cases "client (store st)"; cases ev)
     (auto simp: renewAuthToken_step_def authenticate_eq send_eq SetToken_def Let_def case_prod_beta)

lemma ren_step_trace:
  "\<exists>xs. trace (snd (renewAuthToken_step api ev (r, st))) = trace st @ xs \<and>
        sent_by Monitor xs = [] \<and> sent_by Caller xs = []"
  by (cases "rpc r"; cases "client (store st)"; cases ev)
     (auto simp: renewAuthToken_step_def authenticate_eq send_eq SetToken_def Let_def case_prod_beta
        sent_by_def)

lemma mon_step_trace:
  "\<exists>xs. trace (snd (checkStatus_step api ev (m, st))) = trace st @ xs \<and>
        sent_by Renewer xs = [] \<and> sent_by Caller xs = []"
  by (cases "mpc m"; cases "client (store st)"; cases ev)
     (auto simp: checkStatus_step_def send_eq Let_def case_prod_beta sent_by_def split: sum.splits)

lemma mon_step_client:
  "client (store (snd (checkStatus_step api ev (m, st)))) = client (store st)"
  by (cases "mpc m"; cases "client (store st)"; cases ev)
     (auto simp: checkStatus_step_def send_eq Let_def case_prod_beta sent_by_def split: sum.splits)

lemma Get_frame:
  "store (snd (Get api k st)) = store st \<and>
   (\<exists>xs. trace (snd (Get api k st)) = trace st @ xs \<and>
         sent_by Renewer xs = [] \<and> sent_by Monitor xs = [])"
  by (cases "client (store st)")
     (auto simp: Get_def send_eq log_def logf_def Let_def case_prod_beta sent_by_def
        split: option.splits jvalue.splits)

lemma Create_frame:
  "store (snd (Create api k v st)) = store st \<and>
   (\<exists>xs. trace (snd (Create api k v st)) = trace st @ xs \<and>
         sent_by Renewer xs = [] \<and> sent_by Monitor xs = [])"
  by (cases "client (store st)")
     (auto simp: Create_def send_eq log_def logf_def Let_def case_prod_beta sent_by_def)

lemma Delete_frame:
  "store (snd (Delete api k st)) = store st \<and>
   (\<exists>xs. trace (snd (Delete api k st)) = trace st @ xs \<and>
         sent_by Renewer xs = [] \<and> sent_by Monitor xs = [])"
  by (cases "client (store st)")
     (auto simp: Delete_def send_eq log_def logf_def Let_def case_prod_beta sent_by_def)

lemma act_client:
  "(client (store (shared (act api a m))) = None) = (client (store (shared m)) = None)"
proof (cases a)
  case (AMonitor ev)
  then show ?thesis
    using mon_step_client [of api ev "mon m" "shared m"] by (simp add: case_prod_beta)
next
  case (ARenewer ev)
  then show ?thesis
    using ren_step_frame [of api ev "ren m" "shared m"] by (simp add: case_prod_beta)
next
  case (AGet k)
  then show ?thesis using Get_frame [of api k "shared m"] by simp
next
  case (ACreate k v)
  then show ?thesis using Create_frame [of api k v "shared m"] by simp
next
  case (ADelete k)
  then show ?thesis using Delete_frame [of api k "shared m"] by simp
next
  case (AWorld f)
  then show ?thesis by simp
qed

lemma act_other:
  assumes "\<forall>ev. a \<noteq> ARenewer ev"
  shows "ren (act api a m) = ren m \<and>
         (\<exists>xs. trace (shared (act api a m)) = trace (shared m) @ xs \<and> sent_by Renewer xs = [])"
proof (cases a)
  case (AMonitor ev)
  then show ?thesis
    using mon_step_trace [of api ev "mon m" "shared m"] by (auto simp: case_prod_beta)
next
  case (ARenewer ev)
  with assms show ?thesis by simp
next
  case (AGet k)
  then show ?thesis using Get_frame [of api k "shared m"] by auto
next
  case (ACreate k v)
  then show ?thesis using Create_frame [of api k v "shared m"] by auto
next
  case (ADelete k)
  then show ?thesis using Delete_frame [of api k "shared m"] by auto
next
  case (AWorld f)
  then show ?thesis by (simp add: sent_by_def)
qed

lemma act_trace: "\<exists>xs. trace (shared (act api a m)) = trace (shared m) @ xs"
proof (cases a)
  case (ARenewer ev)
  then show ?thesis
    using ren_step_trace [of api ev "ren m" "shared m"] by (auto simp: case_prod_beta)
next
  case (AMonitor ev)
  then show ?thesis using act_other [of a api m] by auto
next
  case (AGet k)
  then show ?thesis using act_other [of a api m] by auto
next
  case (ACreate k v)
  then show ?thesis using act_other [of a api m] by auto
next
  case (ADelete k)
  then show ?thesis using act_other [of a api m] by auto
next
  case (AWorld f)
  then show ?thesis by simp
qed

lemma run_trace: "\<exists>xs. trace (shared (run api as m)) = trace (shared m) @ xs"
proof (induction as arbitrary: m)
  case Nil
  show ?case by simp
next
  case (Cons a as)
  from Cons.IH [of "act api a m"] act_trace [of api a m] show ?case by auto
qed

lemma run_append: "run api (as @ bs) m = run api bs (run api as m)"
  by (induction as arbitrary: m) simp_all


lemma sent_by_append: "sent_by who (xs @ ys) = sent_by who xs @ sent_by who ys"
  by (simp add: sent_by_def)

lemma since_append: "trace st' = trace st @ xs \<Longrightarrow> since st st' = xs"
  by (simp add: since_def)

lemma since_trans:
  "trace st1 = trace st @ xs \<Longrightarrow> trace st2 = trace st1 @ ys \<Longrightarrow>
   since st st2 = xs @ since st1 st2"
  by (simp add: since_def)

lemma ren_step_exit:
  "rpc r \<noteq> RDone \<Longrightarrow> rpc (fst (renewAuthToken_step api ev (r, st))) = RDone \<Longrightarrow>
   ev = Cancelled \<and> (rpc r = RPaused \<or> rpc r = RRetry \<or> rpc r = RRenew)"
  by (cases "rpc r"; cases "client (store st)"; cases ev)
     (auto simp: renewAuthToken_step_def authenticate_eq send_eq SetToken_def Let_def case_prod_beta
        split: if_splits)

lemma ren_step_alive:
  "rpc r \<noteq> RDone \<Longrightarrow> rpc r \<noteq> RPanic \<Longrightarrow> client (store st) \<noteq> None \<Longrightarrow> ev \<noteq> Cancelled \<Longrightarrow>
   rpc (fst (renewAuthToken_step api ev (r, st))) \<noteq> RDone \<and>
   rpc (fst (renewAuthToken_step api ev (r, st))) \<noteq> RPanic"
  by (cases "rpc r"; cases "client (store st)"; cases ev)
     (auto simp: renewAuthToken_step_def authenticate_eq send_eq SetToken_def Let_def case_prod_beta
        split: if_splits)

lemma mon_step_alive:
  "mpc m \<noteq> MDone \<Longrightarrow> mpc m \<noteq> MPanic \<Longrightarrow> client (store st) \<noteq> None \<Longrightarrow> ev \<noteq> Cancelled \<Longrightarrow>
   mpc (fst (checkStatus_step api ev (m, st))) \<noteq> MDone \<and>
   mpc (fst (checkStatus_step api ev (m, st))) \<noteq> MPanic"
  by (cases "mpc m"; cases "client (store st)"; cases ev)
     (auto simp: checkStatus_step_def send_eq Let_def case_prod_beta split: sum.splits)

lemma act_not_monitor:
  "\<forall>ev. a \<noteq> AMonitor ev \<Longrightarrow> mon (act api a m) = mon m"
  by (cases a) (auto simp: case_prod_beta)

lemma renewer_runs_until_cancelled:
  "rpc (ren m) \<noteq> RDone \<Longrightarrow> rpc (ren m) \<noteq> RPanic \<Longrightarrow> client (store (shared m)) \<noteq> None \<Longrightarrow>
   ARenewer Cancelled \<notin> set as \<Longrightarrow>
   rpc (ren (run api as m)) \<noteq> RDone \<and> rpc (ren (run api as m)) \<noteq> RPanic"
proof (induction as arbitrary: m)
  case Nil
  then show ?case by simp
next
  case (Cons a as)
  have c: "client (store (shared (act api a m))) \<noteq> None"
    using Cons.prems(3) by (simp add: act_client)
  have "rpc (ren (act api a m)) \<noteq> RDone \<and> rpc (ren (act api a m)) \<noteq> RPanic"
  proof (cases "\<exists>ev. a = ARenewer ev")
    case True
    then obtain ev where a: "a = ARenewer ev" by blast
    with Cons.prems(4) have "ev \<noteq> Cancelled" by auto
    from ren_step_alive [OF Cons.prems(1,2,3) this, of api] a show ?thesis
      by (simp add: case_prod_beta)
  next
    case False
    then show ?thesis using act_other [of a api m] Cons.prems(1,2) by simp
  qed
  with Cons.IH [of "act api a m"] c Cons.prems(4) show ?case by simp
qed

lemma monitor_runs_until_cancelled:
  "mpc (mon m) \<noteq> MDone \<Longrightarrow> mpc (mon m) \<noteq> MPanic \<Longrightarrow> client (store (shared m)) \<noteq> None \<Longrightarrow>
   AMonitor Cancelled \<notin> set as \<Longrightarrow>
   mpc (mon (run api as m)) \<noteq> MDone \<and> mpc (mon (run api as m)) \<noteq> MPanic"
proof (induction as arbitrary: m)
  case Nil
  then show ?case by simp
next
  case (Cons a as)
  have c: "client (store (shared (act api a m))) \<noteq> None"
    using Cons.prems(3) by (simp add: act_client)
  have "mpc (mon (act api a m)) \<noteq> MDone \<and> mpc (mon (act api a m)) \<noteq> MPanic"
  proof (cases "\<exists>ev. a = AMonitor ev")
    case True
    then obtain ev where a: "a = AMonitor ev" by blast
    with Cons.prems(4) have "ev \<noteq> Cancelled" by auto
    from mon_step_alive [OF Cons.prems(1,2,3) this, of api] a show ?thesis
      by (simp add: case_prod_beta)
  next
    case False
    then show ?thesis using act_not_monitor [of a api m] Cons.prems(1,2) by simp
  qed
  with Cons.IH [of "act api a m"] c Cons.prems(4) show ?case by simp
qed



lemma paused_while_sealed:
  "sealed_during api as m \<Longrightarrow> rpc (ren m) = RSealed \<or> rpc (ren m) = RPaused \<or> rpc (ren m) = RDone \<Longrightarrow>
   (rpc (ren (run api as m)) = RSealed \<or> rpc (ren (run api as m)) = RPaused \<or>
    rpc (ren (run api as m)) = RDone) \<and>
   ttl (ren (run api as m)) = ttl (ren m) \<and>
   sent_by Renewer (since (shared m) (shared (run api as m))) = []"
proof (induction as arbitrary: m)
  case Nil
  then show ?case by (simp add: since_def sent_by_def)
next
  case (Cons a as)
  let ?m1 = "act api a m"
  obtain ys where ys: "trace (shared (run api as ?m1)) = trace (shared ?m1) @ ys"
    using run_trace [of api as ?m1] by blast
  from Cons.prems(1) have s: "sealed (store (shared m))" and s1: "sealed_during api as ?m1"
    by simp_all
  have "\<exists>xs. (rpc (ren ?m1) = RSealed \<or> rpc (ren ?m1) = RPaused \<or> rpc (ren ?m1) = RDone) \<and>
          ttl (ren ?m1) = ttl (ren m) \<and> trace (shared ?m1) = trace (shared m) @ xs \<and>
          sent_by Renewer xs = []"
  proof (cases "\<exists>ev. a = ARenewer ev")
    case False
    then show ?thesis using act_other [of a api m] Cons.prems(2) by auto
  next
    case True
    then obtain ev where a: "a = ARenewer ev" by blast
    show ?thesis
      using Cons.prems(2) s a
      by (cases ev) (auto simp: renewAuthToken_step_def sent_by_def)
  qed
  then obtain xs where q: "rpc (ren ?m1) = RSealed \<or> rpc (ren ?m1) = RPaused \<or> rpc (ren ?m1) = RDone"
      "ttl (ren ?m1) = ttl (ren m)" "trace (shared ?m1) = trace (shared m) @ xs"
      "sent_by Renewer xs = []"
    by blast
  have "since (shared m) (shared (run api as ?m1)) = xs @ since (shared ?m1) (shared (run api as ?m1))"
    using q(3) ys by (rule since_trans)
  with Cons.IH [OF s1 q(1)] q(2,4) show ?case
    by (simp add: sent_by_append)
qed

lemma failed_rounds:
  assumes refused: "\<forall>c d w. snd (fst (logical_write api c login_path d w)) \<noteq> None"
  shows "rpc (ren m) = RSealed \<Longrightarrow> ttl (ren m) = 0 \<Longrightarrow> \<not> sealed (store (shared m)) \<Longrightarrow>
     client (store (shared m)) \<noteq> None \<Longrightarrow>
     rpc (ren (run api (rounds n) m)) = RSealed \<and> ttl (ren (run api (rounds n) m)) = 0 \<and>
     store (shared (run api (rounds n) m)) = store (shared m) \<and>
     sent_by Renewer (since (shared m) (shared (run api (rounds n) m))) =
       replicate n (ReqWrite login_path (login_data (login (ren m))))"
proof (induction n arbitrary: m)
  case 0
  then show ?case by (simp add: rounds_def since_def sent_by_def)
next
  case (Suc n)
  from Suc.prems(4) obtain c where c: "client (store (shared m)) = Some c" by auto
  let ?a = "ARenewer TimerFired :: 'a action"
  let ?m1 = "act api ?a (act api ?a (act api ?a m))"
  have r: "rounds (Suc n) = [?a, ?a, ?a] @ rounds n" by (simp add: rounds_def)
  have m1: "rpc (ren ?m1) = RSealed" "ttl (ren ?m1) = 0" "store (shared ?m1) = store (shared m)"
      "login (ren ?m1) = login (ren m)"
      "trace (shared ?m1) = trace (shared m) @ [(Renewer, ReqWrite login_path (login_data (login (ren m))))]"
    using Suc.prems c refused
    by (simp_all add: ren_step_RSealed ren_step_RAuth ren_step_wait authenticate_eq Let_def
          case_prod_beta)
  obtain ys where ys: "trace (shared (run api (rounds n) ?m1)) = trace (shared ?m1) @ ys"
    using run_trace [of api "rounds n" ?m1] by blast
  have "since (shared m) (shared (run api (rounds n) ?m1)) =
          [(Renewer, ReqWrite login_path (login_data (login (ren m))))] @
          since (shared ?m1) (shared (run api (rounds n) ?m1))"
    using m1(5) ys by (rule since_trans)
  moreover have "\<not> sealed (store (shared ?m1))" "client (store (shared ?m1)) \<noteq> None"
    using m1(3) Suc.prems by simp_all
  ultimately show ?case
    using Suc.IH [OF m1(1,2)] m1(3,4)
    by (simp add: r sent_by_def del: act.simps)
qed

subsection \<open>Authenticate on a sealed backend\<close>

lemma Authenticate_demo:
  "Authenticate kv_vault (demo_state None False) =
     ((None, Some (mon demo_machine, ren demo_machine)), shared demo_machine)"
  apply (simp add: Authenticate_def demo_state_def demo_store_def)
  apply (simp add: kv_vault_def send_eq Let_def)
  apply (simp add: authenticate_eq Let_def demo_world_def login_data_def login_path_def demo_role_def)
  apply (simp add: auth_secret_def SetToken_def checkStatus_def renewAuthToken_def demo_machine_def
     demo_store_def demo_world_def demo_client_def login_data_def login_path_def demo_role_def)
  done

lemma start_demo: "start kv_vault (demo_state None False) = Some demo_machine"
  by (simp add: start_def Authenticate_demo)

lemma half_zero: "half 0 = 0"
  by (simp add: half_def)




subsection \<open>A login that returns neither a secret nor an error\<close>

text \<open>
  C10. If the login request returns no error and no secret, \<open>authenticate\<close> returns the
  empty token, TTL 0 and no error. A renewer that needs to authenticate takes this for a
  success: it does not wait for the retry delay, it sets the client's token to the empty
  string, and it enters the renewal loop on a timer of duration 0; when that timer fires
  it sends a renewal for 0 seconds.
\<close>

theorem login_without_secret:
  assumes "fst (logical_write api c login_path (login_data l) (world st)) = (None, None)"
    and "st1 = st\<lparr>store := (store st)\<lparr>client := Some (c\<lparr>token := ''''\<rparr>)\<rparr>,
                    world := snd (logical_write api c login_path (login_data l) (world st)),
                    trace := trace st @ [(Renewer, ReqWrite login_path (login_data l))]\<rparr>"
  shows "fst (authenticate api who c l st) = ('''', 0, None) \<and>
         (client (store st) = Some c \<and> rpc r = RAuth \<and> ttl r = 0 \<and> login r = l \<longrightarrow>
            renewAuthToken_step api ev (r, st) = (r\<lparr>ttl := 0, rtimer := 0, rpc := RRenew\<rparr>, st1) \<and>
            trace (snd (renewAuthToken_step api TimerFired (r\<lparr>ttl := 0, rtimer := 0, rpc := RRenew\<rparr>, st1)))
              = trace st1 @ [(Renewer, ReqRenewSelf 0)])"
proof -
  have a: "fst (authenticate api who c l st) = ('''', 0, None)" for who
    using assms(1) by (simp add: authenticate_eq Let_def)
  have b: "renewAuthToken_step api ev (r, st) = (r\<lparr>ttl := 0, rtimer := 0, rpc := RRenew\<rparr>, st1)"
    if "client (store st) = Some c" "rpc r = RAuth" "ttl r = 0" "login r = l"
    using that a [of Renewer] assms(2)
    by (simp add: ren_step_RAuth authenticate_state SetToken_def half_zero Let_def)
  have c: "trace (snd (renewAuthToken_step api TimerFired (r\<lparr>ttl := 0, rtimer := 0, rpc := RRenew\<rparr>, st1)))
              = trace st1 @ [(Renewer, ReqRenewSelf 0)]"
    using ren_step_RRenew [of "r\<lparr>ttl := 0, rtimer := 0, rpc := RRenew\<rparr>" st1 "c\<lparr>token := ''''\<rparr>" api]
      assms(2)
    by (simp add: Let_def)
  from a b c show ?thesis by blast
qed

theorem login_without_secret_witness:
  "fst (authenticate (login_reply_vault (None, None)) Renewer demo_client demo_role
          (demo_state (Some demo_client) False)) = ('''', 0, None) \<and>
   rpc (fst (renewAuthToken_step (login_reply_vault (None, None)) TimerFired
          ((renewAuthToken demo_role 0)\<lparr>rpc := RAuth\<rparr>, demo_state (Some demo_client) False))) = RRenew \<and>
   rtimer (fst (renewAuthToken_step (login_reply_vault (None, None)) TimerFired
          ((renewAuthToken demo_role 0)\<lparr>rpc := RAuth\<rparr>, demo_state (Some demo_client) False))) = 0 \<and>
   map_option token (client (store (snd (renewAuthToken_step (login_reply_vault (None, None)) TimerFired
          ((renewAuthToken demo_role 0)\<lparr>rpc := RAuth\<rparr>, demo_state (Some demo_client) False)))))
     = Some ''''"
proof -
  let ?api = "login_reply_vault (None, None)"
  let ?st = "demo_state (Some demo_client) False"
  let ?l = "demo_role\<lparr>Retry := 5 * Second\<rparr>"
  have 1: "fst (logical_write ?api demo_client login_path (login_data ?l) (world ?st)) = (None, None)"
    by (simp add: login_reply_vault_def)
  have 2: "client (store ?st) = Some demo_client \<and> rpc ((renewAuthToken demo_role 0)\<lparr>rpc := RAuth\<rparr>) = RAuth \<and>
      ttl ((renewAuthToken demo_role 0)\<lparr>rpc := RAuth\<rparr>) = 0 \<and>
      login ((renewAuthToken demo_role 0)\<lparr>rpc := RAuth\<rparr>) = ?l"
    by (simp add: demo_state_def demo_store_def renewAuthToken_def demo_role_def)
  have 3: "login_data ?l = login_data demo_role"
    by (simp add: login_data_def)
  from login_without_secret [OF 1 refl, of Renewer "(renewAuthToken demo_role 0)\<lparr>rpc := RAuth\<rparr>" TimerFired] 2
  show ?thesis
    by (simp add: authenticate_eq 3 Let_def login_reply_vault_def)
qed

subsection \<open>The availability monitor\<close>

text \<open>
  C7. The monitor waits \<open>delay\<close> between two health queries, 10 seconds when it was
  started with 0. On a store with a client, each tick sends one health query; if the
  query succeeds the \<open>sealed\<close> flag becomes the reported value, if it fails the store is
  left as it was; either way the monitor then waits on its timer. No step of the monitor
  changes anything of the store but the \<open>sealed\<close> flag, and none logs. A step ends the
  loop only when it is waiting and the cancellation is chosen; along every run without
  that cancellation the monitor is still polling or waiting.
\<close>

theorem monitor_tick:
  assumes "client (store st) = Some c"
  shows "delay (checkStatus d) = (if d = 0 then 10 * Second else d) \<and>
         mpc (checkStatus d) = MPoll \<and>
         (mpc m = MPoll \<longrightarrow>
            checkStatus_step api ev (m, st) =
              (m\<lparr>timer := Some (delay m), mpc := MWait\<rparr>,
               st\<lparr>store := (case fst (sys_health api c (world st)) of
                                Inr b \<Rightarrow> (store st)\<lparr>sealed := b\<rparr>
                              | Inl e \<Rightarrow> store st),
                   world := snd (sys_health api c (world st)),
                   trace := trace st @ [(Monitor, ReqHealth)]\<rparr>)) \<and>
         (mpc m = MWait \<longrightarrow>
            checkStatus_step api TimerFired (m, st) = (m\<lparr>mpc := MPoll\<rparr>, st) \<and>
            checkStatus_step api Cancelled (m, st) = (m\<lparr>mpc := MDone\<rparr>, st)) \<and>
         store (snd (checkStatus_step api ev (m, st))) =
           (store st)\<lparr>sealed := sealed (store (snd (checkStatus_step api ev (m, st))))\<rparr> \<and>
         logs (snd (checkStatus_step api ev (m, st))) = logs st \<and>
         (mpc m \<noteq> MDone \<and> mpc (fst (checkStatus_step api ev (m, st))) = MDone \<longrightarrow>
            ev = Cancelled \<and> mpc m = MWait) \<and>
         ((mpc (mon mch) = MPoll \<or> mpc (mon mch) = MWait) \<and> client (store (shared mch)) \<noteq> None \<and>
          AMonitor Cancelled \<notin> set as \<longrightarrow>
            mpc (mon (run api as mch)) = MPoll \<or> mpc (mon (run api as mch)) = MWait)"
proof -
  have a: "mpc m = MPoll \<longrightarrow>
            checkStatus_step api ev (m, st) =
              (m\<lparr>timer := Some (delay m), mpc := MWait\<rparr>,
               st\<lparr>store := (case fst (sys_health api c (world st)) of
                                Inr b \<Rightarrow> (store st)\<lparr>sealed := b\<rparr>
                              | Inl e \<Rightarrow> store st),
                   world := snd (sys_health api c (world st)),
                   trace := trace st @ [(Monitor, ReqHealth)]\<rparr>)"
    using assms by (simp add: mon_step_MPoll split: sum.splits)
  have b: "mpc m = MWait \<longrightarrow>
            checkStatus_step api TimerFired (m, st) = (m\<lparr>mpc := MPoll\<rparr>, st) \<and>
            checkStatus_step api Cancelled (m, st) = (m\<lparr>mpc := MDone\<rparr>, st)"
    by (simp add: mon_step_MWait)
  have e: "(mpc (mon mch) = MPoll \<or> mpc (mon mch) = MWait) \<and> client (store (shared mch)) \<noteq> None \<and>
          AMonitor Cancelled \<notin> set as \<longrightarrow>
            mpc (mon (run api as mch)) = MPoll \<or> mpc (mon (run api as mch)) = MWait"
  proof (intro impI, elim conjE)
    assume h: "mpc (mon mch) = MPoll \<or> mpc (mon mch) = MWait" "client (store (shared mch)) \<noteq> None"
      "AMonitor Cancelled \<notin> set as"
    from h(1) have "mpc (mon mch) \<noteq> MDone" "mpc (mon mch) \<noteq> MPanic" by auto
    from monitor_runs_until_cancelled [OF this h(2,3), of api]
    show "mpc (mon (run api as mch)) = MPoll \<or> mpc (mon (run api as mch)) = MWait"
      by (cases "mpc (mon (run api as mch))") simp_all
  qed
  from a b e mon_step_frame [of api ev m st] mon_step_exit [of m api ev st]
  show ?thesis by (simp add: checkStatus_def)
qed

theorem monitor_tick_witness:
  "delay (checkStatus 0) = 10 * Second \<and>
   sealed (store (snd (checkStatus_step kv_vault TimerFired
     (checkStatus 0, (demo_state (Some demo_client) False)\<lparr>world := demo_world True\<rparr>)))) \<and>
   trace (snd (checkStatus_step kv_vault TimerFired
     (checkStatus 0, (demo_state (Some demo_client) False)\<lparr>world := demo_world True\<rparr>))) =
     [(Monitor, ReqHealth)] \<and>
   mpc (fst (checkStatus_step kv_vault TimerFired
     (checkStatus 0, (demo_state (Some demo_client) False)\<lparr>world := demo_world True\<rparr>))) = MWait \<and>
   (mpc (mon (run kv_vault [AMonitor TimerFired, AGet ''k'', AMonitor TimerFired] demo_machine)) = MPoll \<or>
    mpc (mon (run kv_vault [AMonitor TimerFired, AGet ''k'', AMonitor TimerFired] demo_machine)) = MWait)"
proof -
  let ?st = "(demo_state (Some demo_client) False)\<lparr>world := demo_world True\<rparr>"
  have 1: "client (store ?st) = Some demo_client"
    by (simp add: demo_state_def demo_store_def)
  have 2: "mpc (checkStatus 0) = MPoll" by (simp add: checkStatus_def)
  have 3: "(mpc (mon demo_machine) = MPoll \<or> mpc (mon demo_machine) = MWait) \<and>
      client (store (shared demo_machine)) \<noteq> None \<and>
      AMonitor Cancelled \<notin> set [AMonitor TimerFired, AGet ''k'', AMonitor TimerFired]"
    by (simp add: demo_machine_def demo_store_def)
  have 5: "trace ?st = []" by (simp add: demo_state_def)
  note T = monitor_tick [OF 1, of 0 "checkStatus 0" kv_vault TimerFired demo_machine
      "[AMonitor TimerFired, AGet ''k'', AMonitor TimerFired]"]
  from T have d: "delay (checkStatus 0) = (if (0::Duration) = 0 then 10 * Second else 0)"
    by blast
  from T 2 have s: "checkStatus_step kv_vault TimerFired (checkStatus 0, ?st) =
              ((checkStatus 0)\<lparr>timer := Some (delay (checkStatus 0)), mpc := MWait\<rparr>,
               ?st\<lparr>store := (case fst (sys_health kv_vault demo_client (world ?st)) of
                                Inr b \<Rightarrow> (store ?st)\<lparr>sealed := b\<rparr>
                              | Inl e \<Rightarrow> store ?st),
                   world := snd (sys_health kv_vault demo_client (world ?st)),
                   trace := trace ?st @ [(Monitor, ReqHealth)]\<rparr>)"
    by blast
  from T 3 have r: "mpc (mon (run kv_vault [AMonitor TimerFired, AGet ''k'', AMonitor TimerFired] demo_machine)) = MPoll \<or>
    mpc (mon (run kv_vault [AMonitor TimerFired, AGet ''k'', AMonitor TimerFired] demo_machine)) = MWait"
    by blast
  have 6: "fst (sys_health kv_vault demo_client (demo_world True)) = Inr True"
    by (simp add: kv_vault_def demo_world_def)
  from d have d': "delay (checkStatus 0) = 10 * Second" by simp
  have p: "sealed (store (snd (checkStatus_step kv_vault TimerFired (checkStatus 0, ?st)))) \<and>
           trace (snd (checkStatus_step kv_vault TimerFired (checkStatus 0, ?st))) = [(Monitor, ReqHealth)] \<and>
           mpc (fst (checkStatus_step kv_vault TimerFired (checkStatus 0, ?st))) = MWait"
    unfolding s by (simp add: 6 5)
  from d' p r show ?thesis by blast
qed

subsection \<open>Retrying the login\<close>

text \<open>
  C6. The renewer's retry delay is the configured one, 5 seconds when none is configured.
  When the renewer has to authenticate (its TTL is 0) and \<open>authenticate\<close> returns an
  error, the TTL stays 0, the store is left as it was and the renewer waits on a timer of
  the retry delay. When that timer fires it is back at the head of its loop, from where,
  the store not being sealed, it authenticates again. No step returns from the loop
  unless the cancellation is chosen at a wait; along every run without that cancellation
  the renewer never stops; and against a backend that refuses every login, \<open>n\<close> rounds
  send \<open>n\<close> logins and leave the renewer ready for the next, for every \<open>n\<close>.
\<close>

theorem authentication_retried:
  assumes "client (store st) = Some c"
  shows "Retry (login (renewAuthToken l t)) = (if Retry l = 0 then 5 * Second else Retry l) \<and>
         (rpc r = RAuth \<and> ttl r = 0 \<and>
          snd (snd (fst (authenticate api Renewer c (login r) st))) \<noteq> None \<longrightarrow>
            renewAuthToken_step api ev (r, st) =
              (r\<lparr>ttl := 0, rtimer := Retry (login r), rpc := RRetry\<rparr>,
               st\<lparr>world := snd (logical_write api c login_path (login_data (login r)) (world st)),
                  trace := trace st @ [(Renewer, ReqWrite login_path (login_data (login r)))]\<rparr>)) \<and>
         (rpc r = RRetry \<longrightarrow>
            renewAuthToken_step api TimerFired (r, st) = (r\<lparr>rpc := RSealed\<rparr>, st) \<and>
            renewAuthToken_step api Cancelled (r, st) = (r\<lparr>rpc := RDone\<rparr>, st)) \<and>
         (rpc r = RSealed \<and> \<not> sealed (store st) \<longrightarrow>
            renewAuthToken_step api ev (r, st) = (r\<lparr>rpc := RAuth\<rparr>, st)) \<and>
         (rpc r \<noteq> RDone \<and> rpc (fst (renewAuthToken_step api ev (r, st))) = RDone \<longrightarrow>
            ev = Cancelled) \<and>
         (rpc (ren m) \<noteq> RDone \<and> rpc (ren m) \<noteq> RPanic \<and> client (store (shared m)) \<noteq> None \<and>
          ARenewer Cancelled \<notin> set as \<longrightarrow>
            rpc (ren (run api as m)) \<noteq> RDone \<and> rpc (ren (run api as m)) \<noteq> RPanic) \<and>
         ((\<forall>c d w. snd (fst (logical_write api c login_path d w)) \<noteq> None) \<and>
          rpc (ren m) = RSealed \<and> ttl (ren m) = 0 \<and> \<not> sealed (store (shared m)) \<and>
          client (store (shared m)) \<noteq> None \<longrightarrow>
            rpc (ren (run api (rounds n) m)) = RSealed \<and> ttl (ren (run api (rounds n) m)) = 0 \<and>
            sent_by Renewer (since (shared m) (shared (run api (rounds n) m))) =
              replicate n (ReqWrite login_path (login_data (login (ren m)))))"
proof -
  have a: "Retry (login (renewAuthToken l t)) = (if Retry l = 0 then 5 * Second else Retry l)"
    by (simp add: renewAuthToken_def)
  have b: "rpc r = RAuth \<and> ttl r = 0 \<and>
          snd (snd (fst (authenticate api Renewer c (login r) st))) \<noteq> None \<longrightarrow>
            renewAuthToken_step api ev (r, st) =
              (r\<lparr>ttl := 0, rtimer := Retry (login r), rpc := RRetry\<rparr>,
               st\<lparr>world := snd (logical_write api c login_path (login_data (login r)) (world st)),
                  trace := trace st @ [(Renewer, ReqWrite login_path (login_data (login r)))]\<rparr>)"
    using assms by (auto simp: ren_step_RAuth authenticate_state Let_def)
  have c: "rpc r = RRetry \<longrightarrow>
            renewAuthToken_step api TimerFired (r, st) = (r\<lparr>rpc := RSealed\<rparr>, st) \<and>
            renewAuthToken_step api Cancelled (r, st) = (r\<lparr>rpc := RDone\<rparr>, st)"
    by (simp add: ren_step_wait)
  have d: "rpc r = RSealed \<and> \<not> sealed (store st) \<longrightarrow>
            renewAuthToken_step api ev (r, st) = (r\<lparr>rpc := RAuth\<rparr>, st)"
    by (simp add: ren_step_RSealed)
  have e: "rpc r \<noteq> RDone \<and> rpc (fst (renewAuthToken_step api ev (r, st))) = RDone \<longrightarrow> ev = Cancelled"
    using ren_step_exit [of r api ev st] by blast
  have f: "rpc (ren m) \<noteq> RDone \<and> rpc (ren m) \<noteq> RPanic \<and> client (store (shared m)) \<noteq> None \<and>
          ARenewer Cancelled \<notin> set as \<longrightarrow>
            rpc (ren (run api as m)) \<noteq> RDone \<and> rpc (ren (run api as m)) \<noteq> RPanic"
    using renewer_runs_until_cancelled [of m as api] by blast
  have g: "(\<forall>c d w. snd (fst (logical_write api c login_path d w)) \<noteq> None) \<and>
          rpc (ren m) = RSealed \<and> ttl (ren m) = 0 \<and> \<not> sealed (store (shared m)) \<and>
          client (store (shared m)) \<noteq> None \<longrightarrow>
            rpc (ren (run api (rounds n) m)) = RSealed \<and> ttl (ren (run api (rounds n) m)) = 0 \<and>
            sent_by Renewer (since (shared m) (shared (run api (rounds n) m))) =
              replicate n (ReqWrite login_path (login_data (login (ren m))))"
    using failed_rounds [of api m n] by blast
  from a b c d e f g show ?thesis by blast
qed

theorem authentication_retried_witness:
  "renewAuthToken_step (login_reply_vault (None, Some (Foreign ''permission denied''))) TimerFired
     ((renewAuthToken demo_role 0)\<lparr>rpc := RAuth\<rparr>, demo_state (Some demo_client) False) =
     ((renewAuthToken demo_role 0)\<lparr>ttl := 0, rtimer := 5 * Second, rpc := RRetry\<rparr>,
      (demo_state (Some demo_client) False)
        \<lparr>trace := [(Renewer, ReqWrite login_path (login_data demo_role))]\<rparr>) \<and>
   sent_by Renewer
     (since (demo_state (Some demo_client) False)
        (shared (run (login_reply_vault (None, Some (Foreign ''permission denied''))) (rounds 3)
           \<lparr>shared = demo_state (Some demo_client) False, mon = checkStatus 0,
            ren = renewAuthToken demo_role 0\<rparr>))) =
     [ReqWrite login_path (login_data demo_role), ReqWrite login_path (login_data demo_role),
      ReqWrite login_path (login_data demo_role)] \<and>
   rpc (ren (run (login_reply_vault (None, Some (Foreign ''permission denied''))) (rounds 3)
           \<lparr>shared = demo_state (Some demo_client) False, mon = checkStatus 0,
            ren = renewAuthToken demo_role 0\<rparr>)) = RSealed"
proof -
  let ?api = "login_reply_vault (None, Some (Foreign ''permission denied''))"
  let ?st = "demo_state (Some demo_client) False"
  let ?r = "(renewAuthToken demo_role 0)\<lparr>rpc := RAuth\<rparr>"
  let ?m = "\<lparr>shared = ?st, mon = checkStatus 0, ren = renewAuthToken demo_role 0\<rparr>"
  have 1: "client (store ?st) = Some demo_client"
    by (simp add: demo_state_def demo_store_def)
  have 2: "rpc ?r = RAuth \<and> ttl ?r = 0 \<and>
           snd (snd (fst (authenticate ?api Renewer demo_client (login ?r) ?st))) \<noteq> None"
    by (simp add: renewAuthToken_def authenticate_eq login_reply_vault_def Let_def)
  have 3: "(\<forall>c d w. snd (fst (logical_write ?api c login_path d w)) \<noteq> None) \<and>
          rpc (ren ?m) = RSealed \<and> ttl (ren ?m) = 0 \<and> \<not> sealed (store (shared ?m)) \<and>
          client (store (shared ?m)) \<noteq> None"
    by (simp add: login_reply_vault_def renewAuthToken_def demo_state_def demo_store_def)
  have 4: "login_data (login ?r) = login_data demo_role"
      "login_data (login (ren ?m)) = login_data demo_role"
      "Retry (login ?r) = 5 * Second"
      "snd (logical_write ?api demo_client login_path (login_data demo_role) (world ?st)) = world ?st"
      "trace ?st = []" "shared ?m = ?st"
    by (simp_all add: renewAuthToken_def login_data_def demo_role_def login_reply_vault_def
          demo_state_def)
  note T = authentication_retried [OF 1, of demo_role 0 ?r ?api TimerFired ?m "[]" 3]
  from T 2 have s: "renewAuthToken_step ?api TimerFired (?r, ?st) =
              (?r\<lparr>ttl := 0, rtimer := Retry (login ?r), rpc := RRetry\<rparr>,
               ?st\<lparr>world := snd (logical_write ?api demo_client login_path (login_data (login ?r)) (world ?st)),
                  trace := trace ?st @ [(Renewer, ReqWrite login_path (login_data (login ?r)))]\<rparr>)"
    by blast
  from T 3 have r: "rpc (ren (run ?api (rounds 3) ?m)) = RSealed"
     "sent_by Renewer (since (shared ?m) (shared (run ?api (rounds 3) ?m))) =
              replicate 3 (ReqWrite login_path (login_data (login (ren ?m))))"
    by blast+
  have s': "renewAuthToken_step ?api TimerFired (?r, ?st) =
     ((renewAuthToken demo_role 0)\<lparr>ttl := 0, rtimer := 5 * Second, rpc := RRetry\<rparr>,
      ?st\<lparr>trace := [(Renewer, ReqWrite login_path (login_data demo_role))]\<rparr>)"
    unfolding s 4 by simp
  have r': "sent_by Renewer (since ?st (shared (run ?api (rounds 3) ?m))) =
     [ReqWrite login_path (login_data demo_role), ReqWrite login_path (login_data demo_role),
      ReqWrite login_path (login_data demo_role)]"
    using r(2) unfolding 4 by (simp add: numeral_3_eq_3)
  from s' r' r(1) show ?thesis by blast
qed

subsection \<open>The outcome of a renewal\<close>



subsection \<open>The pause while the backend is sealed\<close>

text \<open>
  The renewer reads the \<open>sealed\<close> flag only at the head of its outer loop. In the run
  below the store has authenticated, the renewer waits for its first renewal, the backend
  is sealed and the monitor has set the flag: when the renewal timer fires, the renewer
  sends its renewal request all the same.
\<close>

lemma sealed_mid_lease_eq:
  "sealed_mid_lease =
     \<lparr>shared = \<lparr>store = demo_store (Some demo_client) True, world = demo_world True,
                trace = [(Caller, ReqHealth), (Caller, ReqWrite login_path (login_data demo_role)),
                         (Monitor, ReqHealth)],
                logs = []\<rparr>,
      mon = \<lparr>delay = 10 * Second, timer = Some (10 * Second), mpc = MWait\<rparr>,
      ren = \<lparr>login = demo_role\<lparr>Retry := 5 * Second\<rparr>, ttl = 10 * Second, rtimer = 5 * Second,
             rpc = RRenew\<rparr>\<rparr>"
proof -
  have h: "half (10 * Second) = 5 * Second" "10 * Second \<noteq> (0 :: Duration)"
    by (simp_all add: half_def Second_def)
  let ?m1 = "act kv_vault (ARenewer TimerFired) demo_machine"
  have 1: "?m1 = demo_machine\<lparr>ren := (ren demo_machine)\<lparr>rpc := RAuth\<rparr>\<rparr>"
    by (simp add: demo_machine_def ren_step_RSealed demo_store_def)
  let ?m2 = "act kv_vault (ARenewer TimerFired) ?m1"
  have 2: "?m2 = demo_machine\<lparr>ren := (ren demo_machine)\<lparr>rtimer := 5 * Second, rpc := RRenew\<rparr>\<rparr>"
    unfolding 1 by (simp add: demo_machine_def ren_step_RAuth_lease h)
  let ?m3 = "act kv_vault (AWorld (\<lambda>w. w\<lparr>is_sealed := True\<rparr>)) ?m2"
  have 3: "?m3 = demo_machine\<lparr>ren := (ren demo_machine)\<lparr>rtimer := 5 * Second, rpc := RRenew\<rparr>,
                               shared := (shared demo_machine)\<lparr>world := demo_world True\<rparr>\<rparr>"
    unfolding 2 by (simp add: demo_machine_def demo_world_def)
  let ?m4 = "act kv_vault (AMonitor TimerFired) ?m3"
  have 4: "?m4 = \<lparr>shared = \<lparr>store = demo_store (Some demo_client) True, world = demo_world True,
                trace = [(Caller, ReqHealth), (Caller, ReqWrite login_path (login_data demo_role)),
                         (Monitor, ReqHealth)],
                logs = []\<rparr>,
      mon = \<lparr>delay = 10 * Second, timer = Some (10 * Second), mpc = MWait\<rparr>,
      ren = \<lparr>login = demo_role\<lparr>Retry := 5 * Second\<rparr>, ttl = 10 * Second, rtimer = 5 * Second,
             rpc = RRenew\<rparr>\<rparr>"
    unfolding 3
    by (simp add: demo_machine_def mon_step_MPoll [where c = demo_client] demo_store_def kv_vault_def
          demo_world_def)
  show ?thesis
    unfolding sealed_mid_lease_def using 4 by (simp del: act.simps)
qed

theorem renewal_sent_while_sealed_counterexample:
  "start kv_vault (demo_state None False) = Some demo_machine \<and>
   sealed (store (shared sealed_mid_lease)) \<and>
   sent_by Renewer
     (since (shared sealed_mid_lease) (shared (act kv_vault (ARenewer TimerFired) sealed_mid_lease))) =
     [ReqRenewSelf (10 * Second)]"
  unfolding sealed_mid_lease_eq
  by (simp add: start_demo ren_step_RRenew [where c = demo_client] demo_store_def Let_def
        since_def sent_by_def)

text \<open>
  C5, as the code has it. When the renewer is at the head of its loop and reads the
  \<open>sealed\<close> flag as set, it sends nothing and waits on a timer of one second; when that
  timer fires it reads the flag again. Along every run in which the flag stays set, a
  renewer that is at the head of its loop or pausing sends no request and keeps its TTL,
  so that once it reads the flag as clear it goes on to the test of its TTL as it would
  have. The flag is not read in the renewal loop: when the renewal timer fires the
  renewal request is sent whatever the flag says.
\<close>

theorem pause_while_sealed:
  "(rpc r = RSealed \<and> sealed (store st) \<longrightarrow>
      renewAuthToken_step api ev (r, st) = (r\<lparr>rtimer := 1 * Second, rpc := RPaused\<rparr>, st)) \<and>
   (rpc r = RPaused \<longrightarrow>
      renewAuthToken_step api TimerFired (r, st) = (r\<lparr>rpc := RSealed\<rparr>, st) \<and>
      renewAuthToken_step api Cancelled (r, st) = (r\<lparr>rpc := RDone\<rparr>, st)) \<and>
   (rpc r = RSealed \<and> \<not> sealed (store st) \<longrightarrow>
      renewAuthToken_step api ev (r, st) = (r\<lparr>rpc := RAuth\<rparr>, st)) \<and>
   (sealed_during api as m \<and> (rpc (ren m) = RSealed \<or> rpc (ren m) = RPaused) \<longrightarrow>
      (rpc (ren (run api as m)) = RSealed \<or> rpc (ren (run api as m)) = RPaused \<or>
       rpc (ren (run api as m)) = RDone) \<and>
      ttl (ren (run api as m)) = ttl (ren m) \<and>
      sent_by Renewer (since (shared m) (shared (run api as m))) = []) \<and>
   (rpc r = RRenew \<and> client (store st) = Some c \<longrightarrow>
      trace (snd (renewAuthToken_step api TimerFired (r, st))) =
        trace st @ [(Renewer, ReqRenewSelf (ttl r))])"
proof -
  have d: "sealed_during api as m \<and> (rpc (ren m) = RSealed \<or> rpc (ren m) = RPaused) \<longrightarrow>
      (rpc (ren (run api as m)) = RSealed \<or> rpc (ren (run api as m)) = RPaused \<or>
       rpc (ren (run api as m)) = RDone) \<and>
      ttl (ren (run api as m)) = ttl (ren m) \<and>
      sent_by Renewer (since (shared m) (shared (run api as m))) = []"
    using paused_while_sealed [of api as m] by blast
  have e: "rpc r = RRenew \<and> client (store st) = Some c \<longrightarrow>
      trace (snd (renewAuthToken_step api TimerFired (r, st))) =
        trace st @ [(Renewer, ReqRenewSelf (ttl r))]"
    by (auto simp: ren_step_RRenew Let_def)
  have a: "rpc r = RSealed \<and> sealed (store st) \<longrightarrow>
      renewAuthToken_step api ev (r, st) = (r\<lparr>rtimer := 1 * Second, rpc := RPaused\<rparr>, st)"
    and b: "rpc r = RPaused \<longrightarrow>
      renewAuthToken_step api TimerFired (r, st) = (r\<lparr>rpc := RSealed\<rparr>, st) \<and>
      renewAuthToken_step api Cancelled (r, st) = (r\<lparr>rpc := RDone\<rparr>, st)"
    and c: "rpc r = RSealed \<and> \<not> sealed (store st) \<longrightarrow>
      renewAuthToken_step api ev (r, st) = (r\<lparr>rpc := RAuth\<rparr>, st)"
    by (simp_all add: ren_step_RSealed ren_step_wait)
  from a b c d e show ?thesis by blast
qed

theorem pause_while_sealed_witness:
  "renewAuthToken_step kv_vault TimerFired
     (renewAuthToken demo_role 0, demo_state (Some demo_client) True) =
     ((renewAuthToken demo_role 0)\<lparr>rtimer := 1 * Second, rpc := RPaused\<rparr>,
      demo_state (Some demo_client) True) \<and>
   sent_by Renewer
     (since (demo_state (Some demo_client) True)
        (shared (run kv_vault [ARenewer TimerFired, ARenewer TimerFired, AGet ''k'', ARenewer TimerFired]
           \<lparr>shared = demo_state (Some demo_client) True, mon = checkStatus 0,
            ren = renewAuthToken demo_role 0\<rparr>))) = [] \<and>
   ttl (ren (run kv_vault [ARenewer TimerFired, ARenewer TimerFired, AGet ''k'', ARenewer TimerFired]
           \<lparr>shared = demo_state (Some demo_client) True, mon = checkStatus 0,
            ren = renewAuthToken demo_role 0\<rparr>)) = 0"
proof -
  let ?st = "demo_state (Some demo_client) True"
  let ?r = "renewAuthToken demo_role 0"
  let ?m = "\<lparr>shared = ?st, mon = checkStatus 0, ren = ?r\<rparr>"
  let ?as = "[ARenewer TimerFired, ARenewer TimerFired, AGet ''k'', ARenewer TimerFired] :: kv_world action list"
  have 1: "rpc ?r = RSealed \<and> sealed (store ?st)"
    by (simp add: renewAuthToken_def demo_state_def demo_store_def)
  have s: "sealed (store ?st)" "client (store ?st) = Some demo_client"
    by (simp_all add: demo_state_def demo_store_def)
  have g: "snd (Get kv_vault ''k'' ?st) = ?st"
    using s by (simp add: Get_def)
  have 2: "sealed_during kv_vault ?as ?m"
    using s by (simp add: renewAuthToken_def ren_step_RSealed ren_step_wait g)
  have 3: "rpc (ren ?m) = RSealed \<or> rpc (ren ?m) = RPaused" "ttl (ren ?m) = 0" "shared ?m = ?st"
    by (simp_all add: renewAuthToken_def)
  note T = pause_while_sealed [of ?r ?st kv_vault TimerFired ?as ?m demo_client]
  from T 1 have a: "renewAuthToken_step kv_vault TimerFired (?r, ?st) =
      (?r\<lparr>rtimer := 1 * Second, rpc := RPaused\<rparr>, ?st)"
    by blast
  from T 2 3(1) have b: "ttl (ren (run kv_vault ?as ?m)) = ttl (ren ?m)"
      "sent_by Renewer (since (shared ?m) (shared (run kv_vault ?as ?m))) = []"
    by blast+
  from a b show ?thesis unfolding 3(2,3) by blast
qed

end
